theory Spec2Isabelle
  imports Main "HOL-Library.Word"
begin

unbundle bit_operations_syntax

section \<open>Common vocabulary\<close>

text \<open>
  Pointers of the C++ code are natural numbers: a \<open>Lambda*\<close> is the index of the lambda
  in the world's list of lambdas (its gid), the null pointer is \<open>None\<close>.
  \<open>size_t\<close> is 64 bits wide; \<open>size_t(-1)\<close> is the largest value.
\<close>

type_synonym u64 = "64 word"

definition size_t_max :: nat where
  "size_t_max = 2 ^ 64 - 1"

text \<open>Types are hash-consed in the source, so equality of pointers is equality of values.\<close>

datatype Type = PrimType nat | Mem | Pi "Type list" | Generic nat

datatype error = Assertion | OutOfBounds | NullDeref | OutOfFuel | ResizeFailure

section \<open>Literals (literal.cpp): PrimLit::equal and PrimLit::hash\<close>

text \<open>
  A \<open>Box\<close> is a union of all primitive payloads, eight bytes wide;
  \<open>bcast<u64, Box>\<close> reads these eight bytes as one unsigned number.
  The model takes the eight bytes themselves as the box.
\<close>

type_synonym Box = u64

definition bcast :: "Box \<Rightarrow> u64" where
  "bcast b = b"

record PrimLit =
  lit_gid :: nat
  lit_kind :: nat
  lit_type :: Type
  box :: Box

text \<open>
  Modelled from the spec: \<open>Literal::equal\<close> and \<open>Literal::hash\<close> (the base class, not
  under src/). "Structural nodes are unique up to (kind, type, ops); equality is by these
  fields, not by gid"; a literal has no operands. The base hash is a function \<open>h\<close> of the
  same fields.
\<close>

definition Literal_equal :: "PrimLit \<Rightarrow> PrimLit \<Rightarrow> bool" where
  "Literal_equal this other = (lit_kind this = lit_kind other \<and> lit_type this = lit_type other)"

definition Literal_hash :: "(nat \<Rightarrow> Type \<Rightarrow> u64) \<Rightarrow> PrimLit \<Rightarrow> u64" where
  "Literal_hash h this = h (lit_kind this) (lit_type this)"

text \<open>
  \<open>boost::hash_combine(seed, v)\<close> for a 64-bit \<open>v\<close>:
  \<open>seed ^= v + 0x9e3779b9 + (seed << 6) + (seed >> 2)\<close>.
\<close>

definition hash_combine :: "u64 \<Rightarrow> u64 \<Rightarrow> u64" where
  "hash_combine seed v = seed XOR (v + 0x9e3779b9 + push_bit 6 seed + drop_bit 2 seed)"

text \<open>
  \<open>Box::operator==\<close> compares the eight bytes, so it is equality of the words.
\<close>

definition PrimLit_equal :: "PrimLit \<Rightarrow> PrimLit \<Rightarrow> bool" where
  "PrimLit_equal this other =
     (if \<not> Literal_equal this other then False else box this = box other)"

definition PrimLit_hash :: "(nat \<Rightarrow> Type \<Rightarrow> u64) \<Rightarrow> PrimLit \<Rightarrow> u64" where
  "PrimLit_hash h this = hash_combine (Literal_hash h this) (bcast (box this))"

text \<open>
  Modelled from the spec: \<open>World::literal\<close> (hash-consing, not under src/): "the canonical
  hash is computed from (kind, type, ops, payload), and an existing equivalent node is
  returned if present". The table is searched for a node of the same hash that is
  \<open>equal\<close>; a fresh node gets the next gid.
\<close>

record World_literals =
  primlits :: "PrimLit list"
  lit_counter :: nat

definition World_literal ::
  "(nat \<Rightarrow> Type \<Rightarrow> u64) \<Rightarrow> World_literals \<Rightarrow> nat \<Rightarrow> Type \<Rightarrow> Box \<Rightarrow> PrimLit \<times> World_literals" where
  "World_literal h w k ty b =
     (let n = \<lparr>lit_gid = lit_counter w, lit_kind = k, lit_type = ty, box = b\<rparr> in
      case find (\<lambda>m. PrimLit_hash h m = PrimLit_hash h n \<and> PrimLit_equal m n) (primlits w) of
        Some m \<Rightarrow> (m, w)
      | None \<Rightarrow> (n, w\<lparr>primlits := primlits w @ [n], lit_counter := lit_counter w + 1\<rparr>))"

section \<open>CFF lowering (lower2cff): the predicate is\_bad\<close>

text \<open>
  \<open>is_bad\<close> is a closure over the phase flag \<open>local\<close>, the set \<open>top\<close> of the entries of
  the scopes already visited and the current \<open>scope\<close>. Of the callee it reads
  \<open>empty()\<close>, \<open>is_basicblock()\<close> and \<open>is_returning()\<close>; of the scope
  \<open>inner_contains\<close> and \<open>outer_contains\<close>. None of the five is under src/, so
  the model takes their answers as data.
\<close>

record cff_lambda =
  cff_gid :: nat
  cff_empty :: bool
  cff_is_basicblock :: bool
  cff_is_returning :: bool

record cff_scope =
  inner_contains :: "nat \<Rightarrow> bool"
  outer_contains :: "nat \<Rightarrow> bool"

definition is_bad :: "bool \<Rightarrow> nat set \<Rightarrow> cff_scope \<Rightarrow> cff_lambda \<Rightarrow> bool" where
  "is_bad local tops scope to =
     (if cff_empty to then False
      else if local then inner_contains scope (cff_gid to) \<and> \<not> cff_is_basicblock to
      else if cff_gid to \<in> tops
           then \<not> cff_is_returning to \<and> \<not> outer_contains scope (cff_gid to)
           else \<not> cff_is_basicblock to)"

section \<open>Scope (scope.cpp)\<close>

text \<open>
  The fields of a \<open>Lambda\<close> that the scope analysis reads and writes: \<open>sid_\<close>,
  \<open>backwards_sid_\<close>, the back pointer \<open>scope_\<close> (\<open>None\<close> is 0) and the
  pass mark \<open>cur_pass_\<close> of the visit protocol. (An Isabelle name cannot end in an
  underscore: the fields are \<open>sid\<close>, \<open>backwards_sid\<close>, \<open>scope_of\<close>,
  \<open>cur_pass\<close>.) The constructor (literal.cpp, \<open>Lambda::Lambda\<close>) sets both sids to
  \<open>size_t(-1)\<close> and \<open>scope_\<close> to 0.

  \<open>Lambda::succs()\<close> and \<open>Lambda::preds()\<close> read only operands and uses, which
  the scope analysis never writes: the model takes their results as the graph \<open>cfg\<close>.
  Counters such as \<open>num\<close> count lambdas held in memory; they stay below \<open>2^64\<close>
  and are natural numbers here. The one subtraction of the code is written with its
  wrap-around (\<open>size_t_sub\<close>).
\<close>

record Lambda_fields =
  sid :: nat
  backwards_sid :: nat
  scope_of :: "nat option"
  cur_pass :: nat

record cfg =
  succs :: "nat \<Rightarrow> nat list"
  preds :: "nat \<Rightarrow> nat list"

record World =
  lambdas :: "Lambda_fields list"
  pass_counter :: nat

record Scope =
  self :: nat
  rpo :: "nat list"
  num_entries :: nat
  num_exits :: nat
  backwards_rpo_arr :: "nat option list option"

definition Lambda_new :: Lambda_fields where
  "Lambda_new = \<lparr>sid = size_t_max, backwards_sid = size_t_max, scope_of = None, cur_pass = 0\<rparr>"

definition size_t_sub :: "nat \<Rightarrow> nat \<Rightarrow> nat" where
  "size_t_sub a b = (a + 2 ^ 64 - b) mod 2 ^ 64"

text \<open>
  Modelled from the spec: the visit protocol of \<open>Def\<close> and \<open>World::new_pass\<close>
  (not under src/): "The World also issues opaque pass numbers used by analyses to
  implement O(1) visited-in-this-pass marks"; a def is visited in a pass when its mark
  equals the pass number, \<open>visit_first\<close> sets the mark, \<open>new_pass\<close> returns a number
  not handed out before.
  Modelled from the spec: \<open>Scope::contains\<close>, \<open>Scope::size\<close> (scope.h, not under
  src/): a lambda is a member while its \<open>scope_\<close> points to the scope; the size is the
  length of \<open>rpo_\<close>. A pointer that is no lambda of the world is contained in no scope.
\<close>

definition sid_of :: "World \<Rightarrow> nat \<Rightarrow> nat" where
  "sid_of w l = sid (lambdas w ! l)"

definition is_visited :: "World \<Rightarrow> nat \<Rightarrow> nat \<Rightarrow> bool" where
  "is_visited w pass l = (cur_pass (lambdas w ! l) = pass)"

definition visit_first :: "World \<Rightarrow> nat \<Rightarrow> nat \<Rightarrow> World" where
  "visit_first w pass l = w\<lparr>lambdas := (lambdas w)[l := (lambdas w ! l)\<lparr>cur_pass := pass\<rparr>]\<rparr>"

definition set_sid :: "World \<Rightarrow> nat \<Rightarrow> nat \<Rightarrow> World" where
  "set_sid w l i = w\<lparr>lambdas := (lambdas w)[l := (lambdas w ! l)\<lparr>sid := i\<rparr>]\<rparr>"

definition contains :: "Scope \<Rightarrow> World \<Rightarrow> nat \<Rightarrow> bool" where
  "contains sc w l = (l < length (lambdas w) \<and> scope_of (lambdas w ! l) = Some (self sc))"


definition new_pass :: "World \<Rightarrow> nat \<times> World" where
  "new_pass w = (pass_counter w + 1, w\<lparr>pass_counter := pass_counter w + 1\<rparr>)"

definition Scope_size :: "Scope \<Rightarrow> nat" where
  "Scope_size sc = length (rpo sc)"

text \<open>
  \<open>Scope::number\<close>: the recursive postorder walk. \<open>number_succs\<close> is its loop over
  the successors, threading the world and the counter. The recursion is nested (the
  loop continues in the world the recursive call returns), so termination is proved
  from a property of the function on its domain: the walk only marks lambdas.
\<close>

definition number_edges :: "cfg \<Rightarrow> bool \<Rightarrow> nat \<Rightarrow> nat list" where
  "number_edges g forwards cur = (if forwards then succs g cur else preds g cur)"

function number :: "cfg \<Rightarrow> Scope \<Rightarrow> bool \<Rightarrow> nat \<Rightarrow> nat \<Rightarrow> World \<times> nat \<Rightarrow> World \<times> nat"
  and number_succs :: "cfg \<Rightarrow> Scope \<Rightarrow> bool \<Rightarrow> nat \<Rightarrow> nat list \<Rightarrow> World \<times> nat \<Rightarrow> World \<times> nat"
where
  "number g sc forwards pass cur (w, i) =
     (case number_succs g sc forwards pass (number_edges g forwards cur)
             (visit_first w pass cur, i) of
        (w', i') \<Rightarrow> (set_sid w' cur i', i' + 1))"
| "number_succs g sc forwards pass [] (w, i) = (w, i)"
| "number_succs g sc forwards pass (succ # rest) (w, i) =
     (if contains sc w succ \<and> \<not> is_visited w pass succ
      then number_succs g sc forwards pass rest (number g sc forwards pass succ (w, i))
      else number_succs g sc forwards pass rest (w, i))"
  by pat_completeness auto


definition unvisited :: "Scope \<Rightarrow> nat \<Rightarrow> World \<Rightarrow> nat set" where
  "unvisited sc pass w = {l. contains sc w l \<and> \<not> is_visited w pass l}"

definition number_frame :: "nat \<Rightarrow> World \<Rightarrow> World \<Rightarrow> bool" where
  "number_frame pass w w' \<longleftrightarrow>
     length (lambdas w') = length (lambdas w) \<and>
     (\<forall>l<length (lambdas w). scope_of (lambdas w' ! l) = scope_of (lambdas w ! l) \<and>
        (cur_pass (lambdas w ! l) = pass \<longrightarrow> cur_pass (lambdas w' ! l) = pass))"

lemma number_frame_refl: "number_frame pass w w"
  by (simp add: number_frame_def)

lemma number_frame_trans:
  "number_frame pass w w1 \<Longrightarrow> number_frame pass w1 w2 \<Longrightarrow> number_frame pass w w2"
  by (simp add: number_frame_def)

lemma nth_visit_first:
  "l < length (lambdas w) \<Longrightarrow> lambdas (visit_first w pass cur) ! l =
     (if l = cur then (lambdas w ! l)\<lparr>cur_pass := pass\<rparr> else lambdas w ! l)"
  by (simp add: visit_first_def nth_list_update)

lemma nth_set_sid:
  "l < length (lambdas w) \<Longrightarrow> lambdas (set_sid w cur i) ! l =
     (if l = cur then (lambdas w ! l)\<lparr>sid := i\<rparr> else lambdas w ! l)"
  by (simp add: set_sid_def nth_list_update)

lemma length_visit_first: "length (lambdas (visit_first w pass cur)) = length (lambdas w)"
  by (simp add: visit_first_def)

lemma length_set_sid: "length (lambdas (set_sid w cur i)) = length (lambdas w)"
  by (simp add: set_sid_def)

lemma number_frame_visit_first: "number_frame pass w (visit_first w pass cur)"
  by (simp add: number_frame_def nth_visit_first length_visit_first)

lemma number_frame_set_sid: "number_frame pass w (set_sid w cur i)"
  by (simp add: number_frame_def nth_set_sid length_set_sid)

lemma finite_unvisited: "finite (unvisited sc pass w)"
proof -
  have "unvisited sc pass w \<subseteq> {..<length (lambdas w)}"
    by (auto simp: unvisited_def contains_def)
  then show ?thesis by (rule finite_subset) simp
qed

lemma unvisited_frame:
  "number_frame pass w w' \<Longrightarrow> unvisited sc pass w' \<subseteq> unvisited sc pass w"
  by (auto simp: number_frame_def unvisited_def contains_def is_visited_def)

lemma unvisited_visit_first:
  "unvisited sc pass (visit_first w pass cur) = unvisited sc pass w - {cur}"
  by (auto simp: unvisited_def contains_def is_visited_def nth_visit_first length_visit_first
      split: if_splits)

lemma number_dom_frame:
  "number_number_succs_dom (Inl (g, sc, forwards, pass, cur, wi)) \<Longrightarrow>
     number_frame pass (fst wi) (fst (number g sc forwards pass cur wi))"
  "number_number_succs_dom (Inr (g, sc, forwards, pass, xs, wi)) \<Longrightarrow>
     number_frame pass (fst wi) (fst (number_succs g sc forwards pass xs wi))"
proof (induction g sc forwards pass cur wi and g sc forwards pass xs wi
    rule: number_number_succs.pinduct)
  case (1 g sc forwards pass cur w i)
  let ?r = "number_succs g sc forwards pass (number_edges g forwards cur)
      (visit_first w pass cur, i)"
  from "1.IH" have "number_frame pass (visit_first w pass cur) (fst ?r)" by simp
  with number_frame_visit_first have "number_frame pass w (fst ?r)"
    by (rule number_frame_trans)
  then have "number_frame pass w (set_sid (fst ?r) cur (snd ?r))"
    using number_frame_set_sid by (rule number_frame_trans)
  then show ?case
    using "1.hyps" by (simp add: number.psimps case_prod_unfold)
next
  case (2 g sc forwards pass w i)
  then show ?case by (simp add: number_succs.psimps number_frame_refl)
next
  case (3 g sc forwards pass succ rest w i)
  show ?case
  proof (cases "contains sc w succ \<and> \<not> is_visited w pass succ")
    case True
    from "3.IH"(1) [OF True] have a: "number_frame pass w (fst (number g sc forwards pass succ (w, i)))"
      by simp
    from "3.IH"(2) [OF True] a show ?thesis
      using "3.hyps" True by (auto simp: number_succs.psimps intro: number_frame_trans)
  next
    case False
    from "3.IH"(3) [OF False] show ?thesis
      using "3.hyps" False by (auto simp: number_succs.psimps)
  qed
qed

termination number
proof (relation "inv_image (less_than <*lex*> less_than <*lex*> less_than)
    (\<lambda>x. case x of
        Inl (g, sc, forwards, pass, cur, w, i) \<Rightarrow> (card (unvisited sc pass w - {cur}), 1::nat, 0::nat)
      | Inr (g, sc, forwards, pass, xs, w, i) \<Rightarrow> (card (unvisited sc pass w), 0, length xs))",
    goal_cases)
  case 1
  show ?case by (intro wf_inv_image wf_lex_prod wf_less_than)
next
  case (2 g sc forwards pass cur w i)
  then show ?case by (simp add: unvisited_visit_first)
next
  case (3 g sc forwards pass succ rest w i)
  then have "succ \<in> unvisited sc pass w" by (simp add: unvisited_def)
  then have "card (unvisited sc pass w - {succ}) < card (unvisited sc pass w)"
    by (rule card_Diff1_less [OF finite_unvisited])
  then show ?case by simp
next
  case (4 g sc forwards pass succ rest w i)
  from number_dom_frame(1) [OF 4(2)]
  have "unvisited sc pass (fst (number g sc forwards pass succ (w, i))) \<subseteq> unvisited sc pass w"
    by (simp add: unvisited_frame)
  then have "card (unvisited sc pass (fst (number g sc forwards pass succ (w, i))))
      \<le> card (unvisited sc pass w)"
    using finite_unvisited by (simp add: card_mono)
  then show ?case by (auto split: prod.split)
next
  case (5 g sc forwards pass succ rest w i)
  then show ?case by simp
qed



text \<open>
  \<open>Scope::process\<close>. The loop over \<open>entry->succs()\<close> has the body of the loop of
  \<open>number\<close> with \<open>forwards = true\<close>, so it is \<open>number_succs\<close>.
  \<open>process_number\<close> is the function up to its two assertions (it returns the pass,
  the world and \<open>num\<close>); \<open>process_convert\<close> is the body of the loop that turns
  postorder into reverse postorder. \<open>std::sort\<close> with \<open>ScopeLess\<close> is
  \<open>sort_key\<close> on the sid (the order of lambdas with equal sid is left open by
  \<open>std::sort\<close>; only unreachable lambdas share a sid, and \<open>resize\<close> cuts them off).
\<close>

fun process_entries :: "nat list \<Rightarrow> nat \<Rightarrow> World \<times> nat \<Rightarrow> World \<times> nat" where
  "process_entries entries 0 (w, num) = (w, num)"
| "process_entries entries (Suc i) (w, num) =
     process_entries entries i (set_sid w (entries ! i) num, num + 1)"

definition process_number :: "cfg \<Rightarrow> Scope \<Rightarrow> nat list \<Rightarrow> World \<Rightarrow> nat \<times> World \<times> nat" where
  "process_number g sc entries w =
     (case new_pass w of (pass, w0) \<Rightarrow>
        (pass,
         process_entries entries (length entries)
           (fold (\<lambda>entry. number_succs g sc True pass (succs g entry)) entries
              (fold (\<lambda>entry w. visit_first w pass entry) entries w0, 0))))"

definition process_convert :: "nat \<Rightarrow> nat \<Rightarrow> nat \<Rightarrow> World \<Rightarrow> World" where
  "process_convert pass num lambda w =
     (if is_visited w pass lambda
      then set_sid w lambda (size_t_sub (size_t_sub num 1) (sid (lambdas w ! lambda)))
      else w\<lparr>lambdas := (lambdas w)[lambda :=
             (lambdas w ! lambda)\<lparr>sid := size_t_max, scope_of := None\<rparr>]\<rparr>)"

definition Scope_process :: "cfg \<Rightarrow> Scope \<Rightarrow> nat list \<Rightarrow> World \<Rightarrow> error + (World \<times> Scope)" where
  "Scope_process g sc entries w =
     (case process_number g sc entries w of (pass, w3, num) \<Rightarrow>
        if \<not> num \<le> Scope_size sc then Inl Assertion
        else if \<not> num \<ge> 1 then Inl Assertion
        else let w4 = fold (process_convert pass num) (rpo sc) w3
             in Inr (w4, sc\<lparr>rpo := take num (sort_key (sid_of w4) (rpo sc))\<rparr>))"

text \<open>\<open>Scope::~Scope\<close>; \<open>release\<close> is the body of its loop.\<close>

definition release :: "nat \<Rightarrow> World \<Rightarrow> World" where
  "release lambda w = w\<lparr>lambdas := (lambdas w)[lambda := (lambdas w ! lambda)\<lparr>scope_of := None\<rparr>]\<rparr>"

definition Scope_destroy :: "Scope \<Rightarrow> World \<Rightarrow> World" where
  "Scope_destroy sc w = fold release (rpo sc) w"


text \<open>
  \<open>Scope::succs\<close> and \<open>Scope::preds\<close> (the macro \<open>ANYDSL2_SCOPE_SUCC_PRED\<close>): the
  table is indexed by sid and filled for every lambda of \<open>rpo_\<close>. The source fills it
  once and keeps it; the model fills it at every call, which is the same as long as the
  graph and the sids stay as they are. Indexing an \<open>Array\<close> out of range is an error.
  Modelled from the spec: \<open>Scope::num_succs\<close> (scope.h, not under src/), the number of
  successors inside the scope.
\<close>

definition Scope_succs :: "cfg \<Rightarrow> Scope \<Rightarrow> World \<Rightarrow> nat \<Rightarrow> error + nat list" where
  "Scope_succs g sc w lambda =
     (if \<not> contains sc w lambda then Inl Assertion
      else let succs_arr =
                 fold (\<lambda>l arr. arr[sid_of w l := filter (contains sc w) (succs g l)]) (rpo sc)
                   (replicate (Scope_size sc) [])
           in if sid_of w lambda < length succs_arr then Inr (succs_arr ! sid_of w lambda)
              else Inl OutOfBounds)"

definition Scope_preds :: "cfg \<Rightarrow> Scope \<Rightarrow> World \<Rightarrow> nat \<Rightarrow> error + nat list" where
  "Scope_preds g sc w lambda =
     (if \<not> contains sc w lambda then Inl Assertion
      else let preds_arr =
                 fold (\<lambda>l arr. arr[sid_of w l := filter (contains sc w) (preds g l)]) (rpo sc)
                   (replicate (Scope_size sc) [])
           in if sid_of w lambda < length preds_arr then Inr (preds_arr ! sid_of w lambda)
              else Inl OutOfBounds)"

definition num_succs :: "cfg \<Rightarrow> Scope \<Rightarrow> World \<Rightarrow> nat \<Rightarrow> error + nat" where
  "num_succs g sc w lambda = map_sum id length (Scope_succs g sc w lambda)"

fun backwards_rpo_exits :: "cfg \<Rightarrow> Scope \<Rightarrow> World \<Rightarrow> nat list \<Rightarrow> nat list \<Rightarrow> error + nat list" where
  "backwards_rpo_exits g sc w [] exits = Inr exits"
| "backwards_rpo_exits g sc w (lambda # rest) exits =
     (case num_succs g sc w lambda of
        Inl e \<Rightarrow> Inl e
      | Inr n \<Rightarrow> backwards_rpo_exits g sc w rest (if n = 0 then exits @ [lambda] else exits))"

definition Scope_backwards_rpo ::
  "cfg \<Rightarrow> Scope \<Rightarrow> World \<Rightarrow> error + (nat option list \<times> Scope \<times> World)" where
  "Scope_backwards_rpo g sc w =
     (case backwards_rpo_arr sc of
        Some arr \<Rightarrow> Inr (arr, sc, w)
      | None \<Rightarrow>
          (case backwards_rpo_exits g sc w (rpo sc) [] of
             Inl e \<Rightarrow> Inl e
           | Inr exits \<Rightarrow>
               let arr = replicate (Scope_size sc) None
               in Inr (arr, sc\<lparr>backwards_rpo_arr := Some arr, num_exits := length exits\<rparr>, w)))"


text \<open>Two small worlds used for evaluation.\<close>

definition cfg_diamond :: cfg where
  "cfg_diamond = \<lparr>succs = (\<lambda>l. if l = 0 then [1, 2] else if l = 1 then [3] else if l = 2 then [3] else []),
          preds = (\<lambda>l. if l = 3 then [1, 2] else if l = 1 then [0] else if l = 2 then [0] else [])\<rparr>"

definition scope_diamond :: Scope where
  "scope_diamond = \<lparr>self = 7, rpo = [0, 1, 2, 3, 4], num_entries = 1, num_exits = size_t_max,
           backwards_rpo_arr = None\<rparr>"

definition world_diamond :: World where
  "world_diamond = \<lparr>lambdas = replicate 5 (Lambda_new\<lparr>scope_of := Some 7\<rparr>), pass_counter = 0\<rparr>"

definition cfg_single :: cfg where
  "cfg_single = \<lparr>succs = (\<lambda>l. []), preds = (\<lambda>l. [])\<rparr>"

definition world_single :: World where
  "world_single = \<lparr>lambdas = [Lambda_new\<lparr>scope_of := Some 0\<rparr>], pass_counter = 0\<rparr>"

definition scope_single :: Scope where
  "scope_single = \<lparr>self = 0, rpo = [0], num_entries = 1, num_exits = size_t_max, backwards_rpo_arr = None\<rparr>"

definition world_single_rpo :: World where
  "world_single_rpo = \<lparr>lambdas = [\<lparr>sid = 0, backwards_sid = size_t_max, scope_of = Some 0, cur_pass = 1\<rparr>],
      pass_counter = 1\<rparr>"









section \<open>Lambdas and SSA construction (lambda.cpp)\<close>

text \<open>
  Definitions are terms: a lambda is named by its gid, a parameter by its lambda and
  index, and structural nodes (literals, \<open>bottom\<close>, \<open>select\<close>, other primops) by
  their operands, so that pointer equality of hash-consed nodes is term equality.
  A null pointer operand or tracker is \<open>None\<close>.

  A \<open>Lambda\<close> holds the element types of its \<open>pi\<close> (one per parameter), its
  operands (slot 0 the callee, the rest the arguments), \<open>parent_\<close>,
  \<open>is_sealed_\<close>, \<open>is_visited_\<close> (here \<open>visiting\<close>), the value table
  \<open>tracked_values_\<close> and \<open>todos_\<close>. The world is the list of lambdas, indexed by
  gid, and the lines written to \<open>std::cerr\<close>.

  A value table is a \<open>std::vector\<close> of pointers, and \<open>resize\<close> can fail: a size
  above the \<open>max_size()\<close> of the vector throws \<open>std::length_error\<close>, a size that
  the allocator cannot serve throws \<open>std::bad_alloc\<close>, and nothing catches either.
  \<open>max_slots\<close> is the largest size that \<open>resize\<close> grants to a value table in the
  run at hand; it depends on the platform and on the memory left and is an input of the
  model. On every platform it is far below \<open>2^64\<close> (\<open>max_size()\<close> is at most
  \<open>2^64\<close> divided by the size of a pointer). The single nodes that the code makes
  with \<open>new\<close> are taken to be granted.
\<close>

datatype Def =
    DLambda nat
  | DParam nat nat
  | DPrimLit Type Box
  | DBottom Type
  | DSelect Def Def Def
  | DPrimOp nat Type "Def list"

record Todo =
  todo_handle :: nat
  todo_index :: nat
  todo_type :: Type
  todo_name :: string

record Lambda =
  pi_elems :: "Type list"
  ops :: "Def option list"
  parent :: "nat option"
  is_sealed :: bool
  visiting :: bool
  tracked_values :: "Def option list"
  todos :: "Todo list"

record Graph =
  lams :: "Lambda list"
  cerr :: "string list"
  max_slots :: nat

text \<open>
  \<open>Lambda::succs\<close> searches breadth first from the operands of the lambda: a lambda
  found is reported and not entered, any other definition has its operands enqueued, each
  definition once. \<open>enqueue\<close> is the inner loop of the source, \<open>bfs_lambdas\<close>
  the outer one; \<open>dweight\<close> measures what is left to search.
\<close>

fun operands :: "Def \<Rightarrow> Def list" where
  "operands (DSelect c t f) = [c, t, f]"
| "operands (DPrimOp k ty xs) = xs"
| "operands d = []"

fun enqueue :: "Def list \<Rightarrow> Def list \<times> Def list \<Rightarrow> Def list \<times> Def list" where
  "enqueue [] (queue, done) = (queue, done)"
| "enqueue (op # rest) (queue, done) =
     (if op \<in> set done then enqueue rest (queue, done)
      else enqueue rest (queue @ [op], done @ [op]))"

fun dweight :: "Def \<Rightarrow> nat" where
  "dweight (DSelect c t f) = Suc (dweight c + dweight t + dweight f)"
| "dweight (DPrimOp k ty xs) = Suc (sum_list (map dweight xs))"
| "dweight d = 1"

definition weight :: "Def list \<Rightarrow> nat" where
  "weight ds = sum_list (map dweight ds)"

lemma weight_simps: "weight [] = 0" "weight (d # ds) = dweight d + weight ds"
  "weight (xs @ ys) = weight xs + weight ys"
  by (simp_all add: weight_def)

lemma weight_enqueue:
  "weight (fst (enqueue xs (queue, done))) \<le> weight queue + weight xs"
proof (induction xs arbitrary: queue "done")
  case Nil
  show ?case by (simp add: weight_simps)
next
  case (Cons a xs)
  show ?case
  proof (cases "a \<in> set done")
    case True
    with Cons.IH [of queue "done"] show ?thesis by (simp add: weight_simps)
  next
    case False
    with Cons.IH [of "queue @ [a]" "done @ [a]"] show ?thesis by (simp add: weight_simps)
  qed
qed

lemma weight_operands: "weight (operands d) < dweight d"
  by (cases d) (simp_all add: weight_def)

lemma bfs_lambdas_decreases:
  "weight (fst (enqueue (operands d) (queue, done))) < weight (d # queue)"
proof -
  have "weight (fst (enqueue (operands d) (queue, done))) \<le> weight queue + weight (operands d)"
    by (rule weight_enqueue)
  also have "\<dots> < weight queue + dweight d"
    using weight_operands [of d] by simp
  finally show ?thesis by (simp add: weight_simps)
qed

function bfs_lambdas :: "Def list \<Rightarrow> Def list \<Rightarrow> nat list" where
  "bfs_lambdas [] done = []"
| "bfs_lambdas (d # queue) done =
     (case d of
        DLambda l \<Rightarrow> l # bfs_lambdas queue done
      | _ \<Rightarrow> bfs_lambdas (fst (enqueue (operands d) (queue, done)))
             (snd (enqueue (operands d) (queue, done))))"
  by pat_completeness auto
termination
proof (relation "measure (\<lambda>(queue, done). weight queue)")
  show "wf (measure (\<lambda>(queue, done). weight queue))" by simp
qed (simp_all only: in_measure prod.case bfs_lambdas_decreases, simp add: weight_simps)


text \<open>
  \<open>succs\<close> dereferences every operand, so a null operand is a fault.
  \<open>preds\<close> is the same search over the uses: every lambda that reaches this one
  through its operands without passing another lambda. A use list is ordered by the
  history of the \<open>set_op\<close> calls, which a world of terms does not keep: the model
  lists the predecessors by gid. The lambdas are the same; their order can differ from
  that of the source when a predecessor is reached through a primop. Nothing proved
  below reads the order.
\<close>

definition operand_lambdas :: "Def option list \<Rightarrow> nat list" where
  "operand_lambdas os =
     (case enqueue (map the (filter (\<lambda>op. op \<noteq> None) os)) ([], []) of
        (queue, done) \<Rightarrow> bfs_lambdas queue done)"

definition Lambda_succs :: "Lambda \<Rightarrow> error + nat list" where
  "Lambda_succs this = (if None \<in> set (ops this) then Inl NullDeref else Inr (operand_lambdas (ops this)))"

definition Lambda_preds :: "Graph \<Rightarrow> nat \<Rightarrow> nat list" where
  "Lambda_preds w this =
     filter (\<lambda>u. this \<in> set (operand_lambdas (ops (lams w ! u)))) [0..<length (lams w)]"

text \<open>
  \<open>direct_preds\<close> is \<open>find_preds<true>\<close>: a use by a lambda counts only in
  operand slot 0, a use by a \<open>select\<close> is followed to the users of the select, which
  must be lambdas that use it in slot 0 (the source asserts it); every such use reports
  its lambda once. The model lists them by gid as well, where the source follows the
  use lists (the users of a \<open>select\<close> after the direct users).
\<close>

fun subterms :: "Def \<Rightarrow> Def list" where
  "subterms (DSelect c t f) = DSelect c t f # subterms c @ subterms t @ subterms f"
| "subterms (DPrimOp k ty xs) = DPrimOp k ty xs # concat (map subterms xs)"
| "subterms d = [d]"

definition world_defs :: "Graph \<Rightarrow> Def list" where
  "world_defs w =
     concat (map (\<lambda>l. concat (map subterms (map the (filter (\<lambda>op. op \<noteq> None) (ops l))))) (lams w))"

fun select_uses :: "Def \<Rightarrow> nat \<Rightarrow> nat" where
  "select_uses (DSelect c t f) this = count_list [c, t, f] (DLambda this)"
| "select_uses d this = 0"

definition select_misused :: "Graph \<Rightarrow> nat \<Rightarrow> bool" where
  "select_misused w this \<longleftrightarrow>
     (\<exists>s\<in>set (world_defs w). 0 < select_uses s this \<and>
        ((\<exists>l\<in>set (lams w). Some s \<in> set (tl (ops l))) \<or>
         (\<exists>t\<in>set (world_defs w). s \<in> set (operands t))))"

definition direct_uses :: "Lambda \<Rightarrow> nat \<Rightarrow> nat" where
  "direct_uses u this =
     (case ops u of
        Some (DLambda l) # args \<Rightarrow> (if l = this then 1 else 0)
      | Some d # args \<Rightarrow> select_uses d this
      | _ \<Rightarrow> 0)"

definition direct_preds :: "Graph \<Rightarrow> nat \<Rightarrow> error + nat list" where
  "direct_preds w this =
     (if select_misused w this then Inl Assertion
      else Inr (concat (map (\<lambda>u. replicate (direct_uses (lams w ! u) this) u) [0..<length (lams w)])))"

text \<open>
  Modelled from the spec: \<open>num_args\<close>, \<open>arg\<close>, \<open>set_op\<close>,
  \<open>unset_op\<close>, \<open>resize\<close>, \<open>Param::peek\<close>, \<open>Def::replace\<close>,
  \<open>tracked_uses\<close> and \<open>World::bottom\<close> are declared but not defined in the
  sources at hand. The arguments of a lambda are its operands after the callee, and
  \<open>arg\<close> asserts its index; an operand is set or cleared in place, out of range being
  a fault; \<open>resize\<close> pads with null operands; the peek set of a parameter is, for
  each direct predecessor \<open>P\<close>, the pair \<open>(P.arg(i), P)\<close>; a replaced definition is
  forwarded to its representative wherever it is an operand or a tracked value; the
  tracked uses of a definition are its users, one tracker per use, of which the code keeps
  the lambdas; \<open>bottom\<close> of a type is one node per type.
\<close>

definition num_args :: "Lambda \<Rightarrow> nat" where
  "num_args l = length (ops l) - 1"

definition arg :: "Lambda \<Rightarrow> nat \<Rightarrow> error + Def option" where
  "arg l i = (if i < num_args l then Inr (ops l ! (i + 1)) else Inl Assertion)"

fun for_all :: "('a \<Rightarrow> 's \<Rightarrow> error + 's) \<Rightarrow> 'a list \<Rightarrow> 's \<Rightarrow> error + 's" where
  "for_all body [] s = Inr s"
| "for_all body (x # xs) s = (case body x s of Inl e \<Rightarrow> Inl e | Inr s' \<Rightarrow> for_all body xs s')"

definition peek :: "Graph \<Rightarrow> nat \<Rightarrow> nat \<Rightarrow> error + (Def option \<times> nat) list" where
  "peek w lambda index =
     (case direct_preds w lambda of
        Inl e \<Rightarrow> Inl e
      | Inr ps \<Rightarrow>
          for_all (\<lambda>pred result.
              case arg (lams w ! pred) index of
                Inl e \<Rightarrow> Inl e
              | Inr d \<Rightarrow> Inr (result @ [(d, pred)])) ps [])"

definition upd_lambda :: "Graph \<Rightarrow> nat \<Rightarrow> (Lambda \<Rightarrow> Lambda) \<Rightarrow> Graph" where
  "upd_lambda w l f = w\<lparr>lams := (lams w)[l := f (lams w ! l)]\<rparr>"

definition set_op :: "Graph \<Rightarrow> nat \<Rightarrow> nat \<Rightarrow> Def \<Rightarrow> error + Graph" where
  "set_op w this i d =
     (if i < length (ops (lams w ! this))
      then Inr (upd_lambda w this (\<lambda>l. l\<lparr>ops := (ops l)[i := Some d]\<rparr>))
      else Inl OutOfBounds)"

definition unset_op :: "Graph \<Rightarrow> nat \<Rightarrow> nat \<Rightarrow> error + Graph" where
  "unset_op w this i =
     (if i < length (ops (lams w ! this))
      then Inr (upd_lambda w this (\<lambda>l. l\<lparr>ops := (ops l)[i := None]\<rparr>))
      else Inl OutOfBounds)"

definition update_op :: "Graph \<Rightarrow> nat \<Rightarrow> nat \<Rightarrow> Def \<Rightarrow> error + Graph" where
  "update_op w this i d =
     (case unset_op w this i of Inl e \<Rightarrow> Inl e | Inr w' \<Rightarrow> set_op w' this i d)"

definition update_arg :: "Graph \<Rightarrow> nat \<Rightarrow> nat \<Rightarrow> Def \<Rightarrow> error + Graph" where
  "update_arg w this i d = update_op w this (i + 1) d"

definition vec_resize :: "nat \<Rightarrow> 'a option list \<Rightarrow> 'a option list" where
  "vec_resize n xs = take n xs @ replicate (n - length xs) None"

definition resize :: "Graph \<Rightarrow> nat \<Rightarrow> nat \<Rightarrow> Graph" where
  "resize w this n = upd_lambda w this (\<lambda>l. l\<lparr>ops := vec_resize n (ops l)\<rparr>)"

fun subst :: "Def \<Rightarrow> Def \<Rightarrow> Def \<Rightarrow> Def" where
  "subst p s (DSelect c t f) =
     (if DSelect c t f = p then s else DSelect (subst p s c) (subst p s t) (subst p s f))"
| "subst p s (DPrimOp k ty xs) =
     (if DPrimOp k ty xs = p then s else DPrimOp k ty (map (subst p s) xs))"
| "subst p s d = (if d = p then s else d)"

definition Def_replace :: "Graph \<Rightarrow> Def \<Rightarrow> Def \<Rightarrow> Graph" where
  "Def_replace w p s =
     w\<lparr>lams := map (\<lambda>l. l\<lparr>ops := map (map_option (subst p s)) (ops l),
                            tracked_values := map (map_option (subst p s)) (tracked_values l)\<rparr>)
                  (lams w)\<rparr>"

definition tracked_uses :: "Graph \<Rightarrow> Def \<Rightarrow> nat list" where
  "tracked_uses w d =
     concat (map (\<lambda>u. replicate (count_list (ops (lams w ! u)) (Some d)) u) [0..<length (lams w)])"

definition World_bottom :: "Type \<Rightarrow> Def" where
  "World_bottom ty = DBottom ty"

definition append_param :: "Graph \<Rightarrow> nat \<Rightarrow> Type \<Rightarrow> Def \<times> Graph" where
  "append_param w this ty =
     (DParam this (length (pi_elems (lams w ! this))),
      upd_lambda w this (\<lambda>l. l\<lparr>pi_elems := pi_elems l @ [ty]\<rparr>))"

text \<open>
  \<open>find_tracker\<close> resizes the value table to \<open>handle + 1\<close> entries when the handle
  is not inside it, and indexes it. \<open>handle + 1\<close> is a \<open>size_t\<close> sum: at the
  handle \<open>2^64 - 1\<close> it is 0, the table is emptied and the index is out of range. A
  new size above \<open>max_slots\<close> is the failure of \<open>resize\<close>.
  \<open>set_value\<close> stores a fresh tracker in the slot it finds.
\<close>

definition find_tracker :: "Graph \<Rightarrow> nat \<Rightarrow> nat \<Rightarrow> error + (Def option \<times> Graph)" where
  "find_tracker w this handle =
     (if handle \<ge> length (tracked_values (lams w ! this)) \<and> (handle + 1) mod 2 ^ 64 > max_slots w
      then Inl ResizeFailure
      else
        (let w' = (if handle \<ge> length (tracked_values (lams w ! this))
                   then upd_lambda w this
                          (\<lambda>l. l\<lparr>tracked_values := vec_resize ((handle + 1) mod 2 ^ 64) (tracked_values l)\<rparr>)
                   else w)
         in if handle < length (tracked_values (lams w' ! this))
            then Inr (tracked_values (lams w' ! this) ! handle, w')
            else Inl OutOfBounds))"

definition set_value :: "Graph \<Rightarrow> nat \<Rightarrow> nat \<Rightarrow> Def \<Rightarrow> error + (Def \<times> Graph)" where
  "set_value w this handle d =
     (case find_tracker w this handle of
        Inl e \<Rightarrow> Inl e
      | Inr (tracker, w') \<Rightarrow>
          Inr (d, upd_lambda w' this (\<lambda>l. l\<lparr>tracked_values := (tracked_values l)[handle := Some d]\<rparr>)))"

definition return_bottom :: "Graph \<Rightarrow> nat \<Rightarrow> nat \<Rightarrow> Type \<Rightarrow> string \<Rightarrow> error + (Def \<times> Graph)" where
  "return_bottom w this handle ty name =
     set_value (w\<lparr>cerr := cerr w @ [[CHR 0x27] @ name @ [CHR 0x27] @ '' may be undefined'']\<rparr>)
       this handle (World_bottom ty)"

text \<open>
  The search for the one value that all predecessors pass (\<open>find_same\<close>, the first
  loop of \<open>try_remove_trivial_param\<close>) and for the first argument of a successor
  that equals a given definition (\<open>find_arg\<close>, its innermost loop).
\<close>

datatype trivial = Keep | Same "Def option"

fun find_same :: "Graph \<Rightarrow> Def \<Rightarrow> nat \<Rightarrow> nat list \<Rightarrow> Def option \<Rightarrow> error + trivial" where
  "find_same w param index [] same = Inr (Same same)"
| "find_same w param index (pred # rest) same =
     (case arg (lams w ! pred) index of
        Inl e \<Rightarrow> Inl e
      | Inr d \<Rightarrow>
          if d = Some param \<or> same = d then find_same w param index rest same
          else if same \<noteq> None then Inr Keep
          else find_same w param index rest d)"

fun find_arg :: "Def option list \<Rightarrow> Def \<Rightarrow> nat \<Rightarrow> nat option" where
  "find_arg [] d i = None"
| "find_arg (a # args) d i = (if a = Some d then Some i else find_arg args d (i + 1))"

text \<open>
  \<open>get_value\<close>, \<open>fix\<close> and \<open>try_remove_trivial_param\<close> call each other and
  need not return on every graph: the first argument bounds the depth of the calls, and
  running out of it is the error \<open>OutOfFuel\<close>. In \<open>get_value\<close> the pointer
  \<open>same\<close> is null, a definition, or \<open>(const Def*) -1\<close> once two predecessors
  disagree.
\<close>

datatype same_ptr = SameNull | SameDef Def | SameDiff

fun get_value :: "nat \<Rightarrow> Graph \<Rightarrow> nat \<Rightarrow> nat \<Rightarrow> Type \<Rightarrow> string \<Rightarrow> error + (Def \<times> Graph)"
  and Lambda_fix :: "nat \<Rightarrow> Graph \<Rightarrow> nat \<Rightarrow> Todo \<Rightarrow> error + (Def \<times> Graph)"
  and try_remove_trivial_param :: "nat \<Rightarrow> Graph \<Rightarrow> nat \<Rightarrow> nat \<Rightarrow> error + (Def \<times> Graph)"
where
  "get_value 0 w this handle ty name = Inl OutOfFuel"
| "get_value (Suc n) w this handle ty name =
     (case find_tracker w this handle of
        Inl e \<Rightarrow> Inl e
      | Inr (Some d, w1) \<Rightarrow> Inr (d, w1)
      | Inr (None, w1) \<Rightarrow>
          if parent (lams w1 ! this) \<noteq> Some this then
            (case parent (lams w1 ! this) of
               Some p \<Rightarrow> get_value n w1 p handle ty name
             | None \<Rightarrow> return_bottom w1 this handle ty name)
          else if \<not> is_sealed (lams w1 ! this) then
            (case append_param w1 this ty of
               (param, w2) \<Rightarrow>
                 set_value
                   (upd_lambda w2 this (\<lambda>l. l\<lparr>todos := todos l @
                      [\<lparr>todo_handle = handle, todo_index = length (pi_elems (lams w1 ! this)),
                        todo_type = ty, todo_name = name\<rparr>]\<rparr>))
                   this handle param)
          else
            (case Lambda_preds w1 this of
               [] \<Rightarrow> return_bottom w1 this handle ty name
             | [pred] \<Rightarrow>
                 (case get_value n w1 pred handle ty name of
                    Inl e \<Rightarrow> Inl e
                  | Inr (d, w2) \<Rightarrow> set_value w2 this handle d)
             | ps \<Rightarrow>
                 if visiting (lams w1 ! this) then
                   (case append_param w1 this ty of (param, w2) \<Rightarrow> set_value w2 this handle param)
                 else
                   (case for_all
                       (\<lambda>pred (same, w).
                          if same = SameDiff then Inr (same, w)
                          else case get_value n w pred handle ty name of
                                 Inl e \<Rightarrow> Inl e
                               | Inr (d, w') \<Rightarrow>
                                   if same \<noteq> SameNull \<and> same \<noteq> SameDef d then Inr (SameDiff, w')
                                   else Inr (SameDef d, w'))
                       ps (SameNull, upd_lambda w1 this (\<lambda>l. l\<lparr>visiting := True\<rparr>)) of
                      Inl e \<Rightarrow> Inl e
                    | Inr (SameNull, w3) \<Rightarrow> Inl Assertion
                    | Inr (SameDef d, w3) \<Rightarrow> Inr (d, upd_lambda w3 this (\<lambda>l. l\<lparr>visiting := False\<rparr>))
                    | Inr (SameDiff, w3) \<Rightarrow>
                        (case find_tracker (upd_lambda w3 this (\<lambda>l. l\<lparr>visiting := False\<rparr>)) this handle of
                           Inl e \<Rightarrow> Inl e
                         | Inr (Some (DParam l i), w5) \<Rightarrow>
                             (case Lambda_fix n w5 this
                                     \<lparr>todo_handle = handle, todo_index = i, todo_type = ty, todo_name = name\<rparr> of
                                Inl e \<Rightarrow> Inl e
                              | Inr (d, w7) \<Rightarrow> set_value w7 this handle d)
                         | Inr (Some other, w5) \<Rightarrow> Inl Assertion
                         | Inr (None, w5) \<Rightarrow>
                             (case append_param w5 this ty of
                                (param, w6) \<Rightarrow>
                                  (case Lambda_fix n w6 this
                                          \<lparr>todo_handle = handle,
                                            todo_index = length (pi_elems (lams w5 ! this)),
                                            todo_type = ty, todo_name = name\<rparr> of
                                     Inl e \<Rightarrow> Inl e
                                   | Inr (d, w7) \<Rightarrow> set_value w7 this handle d))))))"
| "Lambda_fix 0 w this todo = Inl OutOfFuel"
| "Lambda_fix (Suc n) w this todo =
     (if \<not> todo_index todo < length (pi_elems (lams w ! this)) then Inl OutOfBounds
      else if \<not> is_sealed (lams w ! this) then Inl Assertion
      else
        (case for_all
            (\<lambda>pred w.
               if ops (lams w ! pred) = [] then Inl Assertion
               else case Lambda_succs (lams w ! pred) of
                      Inl e \<Rightarrow> Inl e
                    | Inr ss \<Rightarrow>
                        if length ss \<noteq> 1 then Inl Assertion
                        else case arg (lams (if todo_index todo \<ge> num_args (lams w ! pred)
                                             then resize w pred (todo_index todo + 2) else w) ! pred)
                                    (todo_index todo) of
                               Inl e \<Rightarrow> Inl e
                             | Inr (Some already) \<Rightarrow> Inl Assertion
                             | Inr None \<Rightarrow>
                                 (case get_value n
                                         (if todo_index todo \<ge> num_args (lams w ! pred)
                                          then resize w pred (todo_index todo + 2) else w)
                                         pred (todo_handle todo) (todo_type todo) (todo_name todo) of
                                    Inl e \<Rightarrow> Inl e
                                  | Inr (d, w2) \<Rightarrow> set_op w2 pred (todo_index todo + 1) d))
            (Lambda_preds w this) w of
           Inl e \<Rightarrow> Inl e
         | Inr w' \<Rightarrow> try_remove_trivial_param n w' this (todo_index todo)))"
| "try_remove_trivial_param 0 w this index = Inl OutOfFuel"
| "try_remove_trivial_param (Suc n) w this index =
     (if \<not> index < length (pi_elems (lams w ! this)) then Inl Assertion
      else if \<not> is_sealed (lams w ! this) then Inl Assertion
      else
        (case find_same w (DParam this index) index (Lambda_preds w this) None of
           Inl e \<Rightarrow> Inl e
         | Inr Keep \<Rightarrow> Inr (DParam this index, w)
         | Inr (Same None) \<Rightarrow> Inl Assertion
         | Inr (Same (Some same)) \<Rightarrow>
             (case peek (Def_replace w (DParam this index) same) this index of
                Inl e \<Rightarrow> Inl e
              | Inr peeks \<Rightarrow>
                  (case for_all
                      (\<lambda>pk w. update_arg w (snd pk) index
                                 (World_bottom (pi_elems (lams w ! this) ! index)))
                      peeks (Def_replace w (DParam this index) same) of
                     Inl e \<Rightarrow> Inl e
                   | Inr w2 \<Rightarrow>
                       (case for_all
                           (\<lambda>lambda w.
                              case Lambda_succs (lams w ! lambda) of
                                Inl e \<Rightarrow> Inl e
                              | Inr ss \<Rightarrow>
                                  for_all
                                    (\<lambda>succ w.
                                       case find_arg (tl (ops (lams w ! succ))) (DLambda lambda) 0 of
                                         None \<Rightarrow> Inr w
                                       | Some i \<Rightarrow>
                                           if \<not> i < length (pi_elems (lams w ! succ)) then Inl OutOfBounds
                                           else if DParam this index \<noteq> DParam succ i
                                           then map_sum id snd (try_remove_trivial_param n w succ i)
                                           else Inr w)
                                    ss w)
                           (tracked_uses w (DParam this index)) w2 of
                          Inl e \<Rightarrow> Inl e
                        | Inr w3 \<Rightarrow> Inr (same, w3))))))"

text \<open>\<open>seal\<close> marks the lambda sealed, fixes every todo and clears the list.\<close>

definition seal :: "nat \<Rightarrow> Graph \<Rightarrow> nat \<Rightarrow> error + Graph" where
  "seal n w this =
     (if is_sealed (lams w ! this) then Inl Assertion
      else case for_all (\<lambda>todo w. map_sum id snd (Lambda_fix n w this todo))
                  (todos (lams w ! this))
                  (upd_lambda w this (\<lambda>l. l\<lparr>is_sealed := True\<rparr>)) of
             Inl e \<Rightarrow> Inl e
           | Inr w' \<Rightarrow> Inr (upd_lambda w' this (\<lambda>l. l\<lparr>todos := []\<rparr>)))"

text \<open>The value table grown to hold \<open>handle\<close>.\<close>

definition grown :: "nat \<Rightarrow> Def option list \<Rightarrow> Def option list" where
  "grown handle tv = tv @ replicate (handle + 1 - length tv) None"

text \<open>
  A small world: \<open>L\<close> (gid 0) has the parameter \<open>p\<close>, is entered from gid 1 and
  gid 2, which both pass the literal 7, and jumps to the loop header \<open>S\<close> (gid 3)
  with \<open>(p, p)\<close>; \<open>S\<close> has the parameters \<open>q\<close> and \<open>r\<close> and jumps to
  itself with \<open>(q, p)\<close>. \<open>graph_loop_removed\<close> and \<open>graph_loop_retried\<close> are
  the worlds after the removal of \<open>p\<close> and after a further removal of \<open>q\<close>.
  In these worlds \<open>resize\<close> grants a value table up to \<open>2^20\<close> slots.
\<close>

definition int_ty :: Type where "int_ty = PrimType 0"

definition lit7 :: Def where "lit7 = DPrimLit int_ty 7"

definition head :: "Type list \<Rightarrow> Def list \<Rightarrow> nat \<Rightarrow> Lambda" where
  "head tys os me = \<lparr>pi_elems = tys, ops = map Some os, parent = Some me, is_sealed = True,
     visiting = False, tracked_values = [], todos = []\<rparr>"

definition graph_loop :: Graph where
  "graph_loop = \<lparr>lams =
     [head [int_ty] [DLambda 3, DParam 0 0, DParam 0 0] 0,
      head [] [DLambda 0, lit7] 1,
      head [] [DLambda 0, lit7] 2,
      head [int_ty, int_ty] [DLambda 3, DParam 3 0, DParam 0 0] 3], cerr = [], max_slots = 2 ^ 20\<rparr>"

definition graph_loop_removed :: Graph where
  "graph_loop_removed = \<lparr>lams =
     [head [int_ty] [DLambda 3, lit7, lit7] 0,
      head [] [DLambda 0, DBottom int_ty] 1,
      head [] [DLambda 0, DBottom int_ty] 2,
      head [int_ty, int_ty] [DLambda 3, DParam 3 0, lit7] 3], cerr = [], max_slots = 2 ^ 20\<rparr>"

definition graph_loop_retried :: Graph where
  "graph_loop_retried = \<lparr>lams =
     [head [int_ty] [DLambda 3, DBottom int_ty, lit7] 0,
      head [] [DLambda 0, DBottom int_ty] 1,
      head [] [DLambda 0, DBottom int_ty] 2,
      head [int_ty, int_ty] [DLambda 3, DBottom int_ty, lit7] 3], cerr = [], max_slots = 2 ^ 20\<rparr>"

section \<open>Mangler (scope.cpp)\<close>

text \<open>
  The members of the class \<open>Mangler\<close>: of the scope its reverse postorder and the
  number of its entries, the indices to drop with their replacements, the definitions to
  lift, the generic map, the world, and the two entries. The pass mark of a definition
  and its \<open>cptr\<close> are one map: a definition is visited in the pass of the mangler
  exactly when \<open>cptr\<close> holds an entry for it (the pass is fresh when the mangler is
  constructed).
\<close>

record Mangler =
  scope_rpo :: "nat list"
  scope_num_entries :: nat
  to_drop :: "nat list"
  drop_with :: "Def list"
  to_lift :: "Def list"
  generic_map :: "nat \<Rightarrow> Type option"
  world :: Graph
  cptr :: "Def \<Rightarrow> Def option"
  nentry :: nat
  oentry :: nat

definition Mangler_map :: "Mangler \<Rightarrow> Def \<Rightarrow> Def \<Rightarrow> Mangler" where
  "Mangler_map m d to = m\<lparr>cptr := (cptr m)(d := Some to)\<rparr>"

text \<open>
  Modelled from the spec: \<open>Type::specialize\<close>, \<open>World::lambda\<close>,
  \<open>World::rebuild\<close>, \<open>World::select\<close>, \<open>Lambda::unset_ops\<close>,
  \<open>ArrayRef::cut\<close>, the index operator of \<open>ArrayRef\<close> and the \<open>u1\<close> view
  of a box are not in the sources at hand. Specialization applies the generic
  substitution; a new lambda takes the next gid, has one parameter per element of its
  \<open>pi\<close>, no operands, and is sealed; a rebuilt primop and a new select are the nodes
  of the same kind and type over the rewritten children; \<open>cut\<close> removes the elements
  at the given indices; an index outside an array is a fault; the \<open>u1\<close> view of a
  box is its lowest bit.
\<close>

fun specialize :: "(nat \<Rightarrow> Type option) \<Rightarrow> Type \<Rightarrow> Type" where
  "specialize gm (Generic n) = (case gm n of None \<Rightarrow> Generic n | Some t \<Rightarrow> t)"
| "specialize gm (Pi ts) = Pi (map (specialize gm) ts)"
| "specialize gm t = t"

definition World_lambda :: "Graph \<Rightarrow> Type list \<Rightarrow> nat \<times> Graph" where
  "World_lambda w elems =
     (length (lams w),
      w\<lparr>lams := lams w @ [\<lparr>pi_elems = elems, ops = [], parent = Some (length (lams w)),
                             is_sealed = True, visiting = False, tracked_values = [],
                             todos = []\<rparr>]\<rparr>)"

definition cut :: "'a list \<Rightarrow> nat list \<Rightarrow> 'a list" where
  "cut xs indices = map fst (filter (\<lambda>p. snd p \<notin> set indices) (zip xs [0..<length xs]))"

definition unset_ops :: "Graph \<Rightarrow> nat \<Rightarrow> Graph" where
  "unset_ops w this = upd_lambda w this (\<lambda>l. l\<lparr>ops := map (\<lambda>op. None) (ops l)\<rparr>)"

text \<open>\<open>Lambda::jump\<close>: the operands are cleared, resized and set one by one.\<close>

fun set_args :: "Graph \<Rightarrow> nat \<Rightarrow> nat \<Rightarrow> Def list \<Rightarrow> error + Graph" where
  "set_args w this x [] = Inr w"
| "set_args w this x (a # args) =
     (case set_op w this x a of Inl e \<Rightarrow> Inl e | Inr w' \<Rightarrow> set_args w' this (x + 1) args)"

definition Lambda_jump :: "Graph \<Rightarrow> nat \<Rightarrow> Def \<Rightarrow> Def list \<Rightarrow> error + Graph" where
  "Lambda_jump w this to args =
     (case set_op (resize (unset_ops w this) this (length args + 1)) this 0 to of
        Inl e \<Rightarrow> Inl e
      | Inr w' \<Rightarrow> set_args w' this 1 args)"

text \<open>
  \<open>mangle_head\<close> makes the stub of a lambda of the scope and maps the lambda and its
  parameters to the stub and its parameters.
\<close>

definition Lambda_stub :: "Graph \<Rightarrow> (nat \<Rightarrow> Type option) \<Rightarrow> nat \<Rightarrow> nat \<times> Graph" where
  "Lambda_stub w gm this = World_lambda w (map (specialize gm) (pi_elems (lams w ! this)))"

definition mangle_head :: "Mangler \<Rightarrow> nat \<Rightarrow> error + (nat \<times> Mangler)" where
  "mangle_head m olambda =
     (if cptr m (DLambda olambda) \<noteq> None then Inl Assertion
      else case Lambda_stub (world m) (generic_map m) olambda of
        (nlambda, w') \<Rightarrow>
          Inr (nlambda,
               fold (\<lambda>i m. Mangler_map m (DParam olambda i) (DParam nlambda i))
                 [0..<length (pi_elems (lams (world m) ! olambda))]
                 (Mangler_map (m\<lparr>world := w'\<rparr>) (DLambda olambda) (DLambda nlambda))))"

text \<open>
  \<open>Mangler::mangle(const Def*)\<close>: a visited definition is looked up; a lambda of the
  scope gets a head, any other lambda and every parameter is mapped to itself; a primop
  has its operands mangled in order and is rebuilt when one of them changed. Literals
  and \<open>bottom\<close> are primops without operands.
\<close>

fun mangle :: "Def \<Rightarrow> Mangler \<Rightarrow> error + (Def \<times> Mangler)"
  and mangle_ops :: "Def list \<Rightarrow> Mangler \<Rightarrow> error + (Def list \<times> Mangler)"
where
  "mangle (DLambda l) m =
     (case cptr m (DLambda l) of
        Some to \<Rightarrow> Inr (to, m)
      | None \<Rightarrow>
          if l \<in> set (scope_rpo m)
          then (case mangle_head m l of Inl e \<Rightarrow> Inl e | Inr (nl, m') \<Rightarrow> Inr (DLambda nl, m'))
          else Inr (DLambda l, Mangler_map m (DLambda l) (DLambda l)))"
| "mangle (DParam l i) m =
     (case cptr m (DParam l i) of
        Some to \<Rightarrow> Inr (to, m)
      | None \<Rightarrow> Inr (DParam l i, Mangler_map m (DParam l i) (DParam l i)))"
| "mangle (DPrimLit ty b) m =
     (case cptr m (DPrimLit ty b) of
        Some to \<Rightarrow> Inr (to, m)
      | None \<Rightarrow> Inr (DPrimLit ty b, Mangler_map m (DPrimLit ty b) (DPrimLit ty b)))"
| "mangle (DBottom ty) m =
     (case cptr m (DBottom ty) of
        Some to \<Rightarrow> Inr (to, m)
      | None \<Rightarrow> Inr (DBottom ty, Mangler_map m (DBottom ty) (DBottom ty)))"
| "mangle (DSelect c t f) m =
     (case cptr m (DSelect c t f) of
        Some to \<Rightarrow> Inr (to, m)
      | None \<Rightarrow>
          (case mangle c m of
             Inl e \<Rightarrow> Inl e
           | Inr (c', m1) \<Rightarrow>
               (case mangle t m1 of
                  Inl e \<Rightarrow> Inl e
                | Inr (t', m2) \<Rightarrow>
                    (case mangle f m2 of
                       Inl e \<Rightarrow> Inl e
                     | Inr (f', m3) \<Rightarrow>
                         Inr (DSelect c' t' f',
                              Mangler_map m3 (DSelect c t f) (DSelect c' t' f'))))))"
| "mangle (DPrimOp k ty xs) m =
     (case cptr m (DPrimOp k ty xs) of
        Some to \<Rightarrow> Inr (to, m)
      | None \<Rightarrow>
          (case mangle_ops xs m of
             Inl e \<Rightarrow> Inl e
           | Inr (nops, m') \<Rightarrow>
               Inr (DPrimOp k ty nops, Mangler_map m' (DPrimOp k ty xs) (DPrimOp k ty nops))))"
| "mangle_ops [] m = Inr ([], m)"
| "mangle_ops (x # xs) m =
     (case mangle x m of
        Inl e \<Rightarrow> Inl e
      | Inr (y, m1) \<Rightarrow>
          (case mangle_ops xs m1 of
             Inl e \<Rightarrow> Inl e
           | Inr (ys, m2) \<Rightarrow> Inr (y # ys, m2)))"

text \<open>
  \<open>mangle_body\<close>, first half: the arguments are mangled in order, then the callee;
  a callee that is a \<open>select\<close> is folded to the taken side when its mangled condition
  is a literal, and is a new select over its mangled operands otherwise (the model
  mangles \<open>tval\<close> before \<open>fval\<close>; C++ leaves the order open). The result is the
  array \<open>ops\<close> of the source, the new target first. A null operand is a fault.
\<close>

definition get_u1 :: "Box \<Rightarrow> bool" where
  "get_u1 b = bit b 0"

definition World_select :: "Def \<Rightarrow> Def \<Rightarrow> Def \<Rightarrow> Def" where
  "World_select c t f = DSelect c t f"

definition mangle_target :: "Def \<Rightarrow> Mangler \<Rightarrow> error + (Def \<times> Mangler)" where
  "mangle_target to m =
     (case to of
        DSelect c t f \<Rightarrow>
          (case mangle c m of
             Inl e \<Rightarrow> Inl e
           | Inr (cond, m1) \<Rightarrow>
               (case cond of
                  DPrimLit ty b \<Rightarrow> mangle (if get_u1 b then t else f) m1
                | _ \<Rightarrow>
                    (case mangle t m1 of
                       Inl e \<Rightarrow> Inl e
                     | Inr (t', m2) \<Rightarrow>
                         (case mangle f m2 of
                            Inl e \<Rightarrow> Inl e
                          | Inr (f', m3) \<Rightarrow> Inr (World_select cond t' f', m3)))))
      | _ \<Rightarrow> mangle to m)"

definition mangle_body_ops :: "Mangler \<Rightarrow> nat \<Rightarrow> error + (Def list \<times> Mangler)" where
  "mangle_body_ops m olambda =
     (if ops (lams (world m) ! olambda) = [] then Inl Assertion
      else if None \<in> set (ops (lams (world m) ! olambda)) then Inl NullDeref
      else
        (case mangle_ops (map the (tl (ops (lams (world m) ! olambda)))) m of
           Inl e \<Rightarrow> Inl e
         | Inr (nargs, m1) \<Rightarrow>
             (case mangle_target (the (hd (ops (lams (world m) ! olambda)))) m1 of
                Inl e \<Rightarrow> Inl e
              | Inr (ntarget, m2) \<Rightarrow> Inr (ntarget # nargs, m2))))"

text \<open>
  \<open>mangle_body\<close>, second half. \<open>substitute\<close> is the loop over \<open>to_drop\<close> that
  compares \<open>nargs[to_drop[i]]\<close> with \<open>drop_with[i]\<close> and stops at the first
  difference. When the new target is the old entry and the loop ends with
  \<open>substitute\<close> set, the new lambda jumps to the new entry with the arguments cut;
  in every other case it jumps to the new target with all arguments.
\<close>

fun substitute :: "Def list \<Rightarrow> nat list \<Rightarrow> Def list \<Rightarrow> nat \<Rightarrow> error + bool" where
  "substitute nargs [] dw i = Inr True"
| "substitute nargs (k # ks) dw i =
     (if \<not> k < length nargs \<or> \<not> i < length dw then Inl Assertion
      else if nargs ! k = dw ! i then substitute nargs ks dw (i + 1)
      else Inr False)"

definition jump_in :: "Mangler \<Rightarrow> nat \<Rightarrow> Def \<Rightarrow> Def list \<Rightarrow> error + Mangler" where
  "jump_in m nlambda to args =
     (case Lambda_jump (world m) nlambda to args of
        Inl e \<Rightarrow> Inl e
      | Inr w' \<Rightarrow> Inr (m\<lparr>world := w'\<rparr>))"

definition mangle_body :: "Mangler \<Rightarrow> nat \<Rightarrow> nat \<Rightarrow> error + Mangler" where
  "mangle_body m olambda nlambda =
     (case mangle_body_ops m olambda of
        Inl e \<Rightarrow> Inl e
      | Inr (nops, m1) \<Rightarrow>
          if hd nops = DLambda (oentry m1) then
            (case substitute (tl nops) (to_drop m1) (drop_with m1) 0 of
               Inl e \<Rightarrow> Inl e
             | Inr True \<Rightarrow> jump_in m1 nlambda (DLambda (nentry m1)) (cut (tl nops) (to_drop m1))
             | Inr False \<Rightarrow> jump_in m1 nlambda (hd nops) (tl nops))
          else jump_in m1 nlambda (hd nops) (tl nops))"

text \<open>
  What mangling a definition may change of the mangler: the map \<open>cptr\<close>, and the
  world by new lambdas at its end.
\<close>

definition mangled :: "Mangler \<Rightarrow> Mangler \<Rightarrow> bool" where
  "mangled m m' \<longleftrightarrow>
     (\<exists>c new. m' = m\<lparr>world := (world m)\<lparr>lams := lams (world m) @ new\<rparr>, cptr := c\<rparr>)"

text \<open>
  The mangler at the moment \<open>mangle()\<close> calls \<open>mangle_body(oentry, nentry)\<close> for
  the scope of one lambda \<open>F(x, n)\<close> (gid 0) whose body is the call
  \<open>F(first, n - 1)\<close>, with parameter 0 dropped for the literal 7: the new entry
  (gid 1) has the one parameter left, \<open>x\<close> is mapped to 7, \<open>n\<close> to the
  parameter of the new entry, and the old entry to itself. The primop of kind 1 stands
  for the subtraction.
\<close>

definition lit1 :: Def where "lit1 = DPrimLit int_ty 1"

definition mangler_loop :: "Def \<Rightarrow> Mangler" where
  "mangler_loop first =
     \<lparr>scope_rpo = [0], scope_num_entries = 1, to_drop = [0], drop_with = [lit7], to_lift = [],
      generic_map = (\<lambda>n. None),
      world = \<lparr>lams =
        [head [int_ty, int_ty] [DLambda 0, first, DPrimOp 1 int_ty [DParam 0 1, lit1]] 0,
         \<lparr>pi_elems = [int_ty], ops = [], parent = Some 1, is_sealed = True, visiting = False,
          tracked_values = [], todos = []\<rparr>], cerr = [], max_slots = 2 ^ 20\<rparr>,
      cptr = ((\<lambda>d. None)(DParam 0 0 := Some lit7, DParam 0 1 := Some (DParam 1 0),
                DLambda 0 := Some (DLambda 0))),
      nentry = 1, oentry = 0\<rparr>"

section \<open>Dominator tree (domtree.cpp)\<close>

text \<open>
  A \<open>DomNode\<close> is made once for each lambda of the scope, so a pointer to a node is
  named by the lambda of the node; \<open>idom_\<close> starts as the null pointer. The tree holds
  the array \<open>nodes_\<close>, indexed by \<open>sid\<close> for the dominator tree and by
  \<open>backwards_sid\<close> for the post-dominator tree, and the nodes themselves.
\<close>

record DomNode =
  idom :: "nat option"
  children :: "nat list"

record DomTree =
  dt_nodes :: "nat option list"
  dt_store :: "nat \<Rightarrow> DomNode option"
  dt_forwards :: bool

definition DomTree_new :: "Scope \<Rightarrow> bool \<Rightarrow> DomTree" where
  "DomTree_new sc fw =
     \<lparr>dt_nodes = replicate (Scope_size sc) None, dt_store = (\<lambda>l. None), dt_forwards = fw\<rparr>"

definition DomTree_index :: "World \<Rightarrow> DomTree \<Rightarrow> nat \<Rightarrow> nat" where
  "DomTree_index w t lambda =
     (if dt_forwards t then sid (lambdas w ! lambda) else backwards_sid (lambdas w ! lambda))"

definition DomTree_lookup :: "Scope \<Rightarrow> World \<Rightarrow> DomTree \<Rightarrow> nat \<Rightarrow> error + nat option" where
  "DomTree_lookup sc w t lambda =
     (if \<not> contains sc w lambda then Inl Assertion
      else if DomTree_index w t lambda < length (dt_nodes t)
      then Inr (dt_nodes t ! DomTree_index w t lambda)
      else Inl OutOfBounds)"

text \<open>
  Modelled from the spec: \<open>Scope::entries\<close>, \<open>body\<close>, \<open>exits\<close> and
  \<open>backwards_body\<close> (scope.h) are not in the sources at hand. The entries are the first
  \<open>num_entries\<close> lambdas of the reverse postorder and the body is the rest; the exits
  are the first \<open>num_exits\<close> slots of the array of \<open>backwards_rpo()\<close> and the
  backwards body is the rest. A slot of that array can be a null pointer.
\<close>

definition Scope_entries :: "Scope \<Rightarrow> nat option list" where
  "Scope_entries sc = map Some (take (num_entries sc) (rpo sc))"

definition Scope_body :: "Scope \<Rightarrow> nat option list" where
  "Scope_body sc = map Some (drop (num_entries sc) (rpo sc))"

definition Scope_exits :: "cfg \<Rightarrow> Scope \<Rightarrow> World \<Rightarrow> error + nat option list" where
  "Scope_exits g sc w =
     (case Scope_backwards_rpo g sc w of
        Inl e \<Rightarrow> Inl e
      | Inr (arr, sc', w') \<Rightarrow> Inr (take (num_exits sc') arr))"

definition Scope_backwards_body :: "cfg \<Rightarrow> Scope \<Rightarrow> World \<Rightarrow> error + nat option list" where
  "Scope_backwards_body g sc w =
     (case Scope_backwards_rpo g sc w of
        Inl e \<Rightarrow> Inl e
      | Inr (arr, sc', w') \<Rightarrow> Inr (drop (num_exits sc') arr))"

definition DomTree_entries :: "cfg \<Rightarrow> Scope \<Rightarrow> World \<Rightarrow> DomTree \<Rightarrow> error + nat option list" where
  "DomTree_entries g sc w t = (if dt_forwards t then Inr (Scope_entries sc) else Scope_exits g sc w)"

definition DomTree_body :: "cfg \<Rightarrow> Scope \<Rightarrow> World \<Rightarrow> DomTree \<Rightarrow> error + nat option list" where
  "DomTree_body g sc w t =
     (if dt_forwards t then Inr (Scope_body sc) else Scope_backwards_body g sc w)"

definition DomTree_preds :: "cfg \<Rightarrow> Scope \<Rightarrow> World \<Rightarrow> DomTree \<Rightarrow> nat \<Rightarrow> error + nat list" where
  "DomTree_preds g sc w t lambda =
     (if dt_forwards t then Scope_preds g sc w lambda else Scope_succs g sc w lambda)"

text \<open>The first loop of \<open>create\<close>: a node for every lambda of \<open>rpo()\<close>.\<close>

definition create_node :: "World \<Rightarrow> nat \<Rightarrow> DomTree \<Rightarrow> error + DomTree" where
  "create_node w lambda t =
     (if DomTree_index w t lambda < length (dt_nodes t)
      then Inr (t\<lparr>dt_nodes := (dt_nodes t)[DomTree_index w t lambda := Some lambda],
                  dt_store := (dt_store t)(lambda := Some \<lparr>idom = None, children = []\<rparr>)\<rparr>)
      else Inl OutOfBounds)"

text \<open>Writing \<open>idom_\<close> through a node pointer; a null pointer is a fault.\<close>

definition set_idom :: "nat option \<Rightarrow> nat option \<Rightarrow> DomTree \<Rightarrow> error + DomTree" where
  "set_idom node new_idom t =
     (case node of
        None \<Rightarrow> Inl NullDeref
      | Some n \<Rightarrow>
          (case dt_store t n of
             None \<Rightarrow> Inl NullDeref
           | Some dn \<Rightarrow> Inr (t\<lparr>dt_store := (dt_store t)(n := Some (dn\<lparr>idom := new_idom\<rparr>))\<rparr>)))"

definition get_idom :: "nat option \<Rightarrow> DomTree \<Rightarrow> error + nat option" where
  "get_idom node t =
     (case node of
        None \<Rightarrow> Inl NullDeref
      | Some n \<Rightarrow> (case dt_store t n of None \<Rightarrow> Inl NullDeref | Some dn \<Rightarrow> Inr (idom dn)))"

text \<open>The second loop: every entry is its own immediate dominator.\<close>

definition init_entry :: "Scope \<Rightarrow> World \<Rightarrow> nat option \<Rightarrow> DomTree \<Rightarrow> error + DomTree" where
  "init_entry sc w entry t =
     (case entry of
        None \<Rightarrow> Inl NullDeref
      | Some e \<Rightarrow>
          (case DomTree_lookup sc w t e of
             Inl err \<Rightarrow> Inl err
           | Inr entry_node \<Rightarrow> set_idom entry_node entry_node t))"

text \<open>
  The third loop: the first predecessor with a smaller index becomes the immediate
  dominator; to find none is \<open>ANYDSL2_UNREACHABLE\<close>.
\<close>

fun first_pred :: "World \<Rightarrow> DomTree \<Rightarrow> nat \<Rightarrow> nat list \<Rightarrow> nat option" where
  "first_pred w t lambda [] = None"
| "first_pred w t lambda (pred # rest) =
     (if DomTree_index w t pred < DomTree_index w t lambda then Some pred
      else first_pred w t lambda rest)"

definition init_idom ::
  "cfg \<Rightarrow> Scope \<Rightarrow> World \<Rightarrow> nat option \<Rightarrow> DomTree \<Rightarrow> error + DomTree" where
  "init_idom g sc w lambda t =
     (case lambda of
        None \<Rightarrow> Inl NullDeref
      | Some l \<Rightarrow>
          (case DomTree_preds g sc w t l of
             Inl e \<Rightarrow> Inl e
           | Inr ps \<Rightarrow>
               (case first_pred w t l ps of
                  None \<Rightarrow> Inl Assertion
                | Some pred \<Rightarrow>
                    (case DomTree_lookup sc w t l of
                       Inl e \<Rightarrow> Inl e
                     | Inr lambda_node \<Rightarrow>
                         (case DomTree_lookup sc w t pred of
                            Inl e \<Rightarrow> Inl e
                          | Inr pred_node \<Rightarrow> set_idom lambda_node pred_node t)))))"

text \<open>
  \<open>lca\<close>: the node with the larger index moves to its immediate dominator until the
  indices agree. The two inner loops of the source take these steps one after the
  other. The walk need not end (two entries never meet), so the first argument bounds
  the number of steps.
\<close>

fun lca :: "nat \<Rightarrow> World \<Rightarrow> DomTree \<Rightarrow> nat \<Rightarrow> nat \<Rightarrow> error + nat" where
  "lca 0 w t i j = Inl OutOfFuel"
| "lca (Suc n) w t i j =
     (if DomTree_index w t i = DomTree_index w t j then Inr i
      else if DomTree_index w t i < DomTree_index w t j
      then (case get_idom (Some j) t of
              Inl e \<Rightarrow> Inl e
            | Inr None \<Rightarrow> Inl NullDeref
            | Inr (Some j') \<Rightarrow> lca n w t i j')
      else (case get_idom (Some i) t of
              Inl e \<Rightarrow> Inl e
            | Inr None \<Rightarrow> Inl NullDeref
            | Inr (Some i') \<Rightarrow> lca n w t i' j))"

text \<open>
  The fixed point: one pass over the body, and the passes until nothing changes. The
  passes are bounded by the first argument of \<open>fixpoint\<close>, the steps of every
  \<open>lca\<close> by the second.
\<close>

definition new_idom_step ::
  "nat \<Rightarrow> Scope \<Rightarrow> World \<Rightarrow> DomTree \<Rightarrow> nat \<Rightarrow> nat option \<Rightarrow> error + nat option" where
  "new_idom_step n sc w t pred new_idom =
     (case DomTree_lookup sc w t pred of
        Inl e \<Rightarrow> Inl e
      | Inr None \<Rightarrow> Inl Assertion
      | Inr (Some pred_node) \<Rightarrow>
          (case new_idom of
             None \<Rightarrow> Inr (Some pred_node)
           | Some i \<Rightarrow> map_sum id Some (lca n w t i pred_node)))"

definition update_idom ::
  "nat \<Rightarrow> cfg \<Rightarrow> Scope \<Rightarrow> World \<Rightarrow> nat option \<Rightarrow> DomTree \<times> bool \<Rightarrow> error + DomTree \<times> bool" where
  "update_idom n g sc w lambda tc =
     (case lambda of
        None \<Rightarrow> Inl NullDeref
      | Some l \<Rightarrow>
          (case DomTree_lookup sc w (fst tc) l of
             Inl e \<Rightarrow> Inl e
           | Inr lambda_node \<Rightarrow>
               (case DomTree_preds g sc w (fst tc) l of
                  Inl e \<Rightarrow> Inl e
                | Inr ps \<Rightarrow>
                    (case for_all (new_idom_step n sc w (fst tc)) ps None of
                       Inl e \<Rightarrow> Inl e
                     | Inr None \<Rightarrow> Inl Assertion
                     | Inr (Some new_idom) \<Rightarrow>
                         (case get_idom lambda_node (fst tc) of
                            Inl e \<Rightarrow> Inl e
                          | Inr old \<Rightarrow>
                              if old \<noteq> Some new_idom
                              then map_sum id (\<lambda>t. (t, True))
                                     (set_idom lambda_node (Some new_idom) (fst tc))
                              else Inr tc)))))"

fun fixpoint ::
  "nat \<Rightarrow> nat \<Rightarrow> cfg \<Rightarrow> Scope \<Rightarrow> World \<Rightarrow> nat option list \<Rightarrow> DomTree \<Rightarrow> error + DomTree" where
  "fixpoint 0 n g sc w body t = Inl OutOfFuel"
| "fixpoint (Suc k) n g sc w body t =
     (case for_all (update_idom n g sc w) body (t, False) of
        Inl e \<Rightarrow> Inl e
      | Inr (t', changed) \<Rightarrow> if changed then fixpoint k n g sc w body t' else Inr t')"

text \<open>The last loop: every lambda of the body becomes a child of its immediate dominator.\<close>

definition add_child :: "Scope \<Rightarrow> World \<Rightarrow> nat option \<Rightarrow> DomTree \<Rightarrow> error + DomTree" where
  "add_child sc w lambda t =
     (case lambda of
        None \<Rightarrow> Inl NullDeref
      | Some l \<Rightarrow>
          (case DomTree_lookup sc w t l of
             Inl e \<Rightarrow> Inl e
           | Inr n \<Rightarrow>
               (case get_idom n t of
                  Inl e \<Rightarrow> Inl e
                | Inr None \<Rightarrow> Inl NullDeref
                | Inr (Some p) \<Rightarrow>
                    (case dt_store t p of
                       None \<Rightarrow> Inl NullDeref
                     | Some dn \<Rightarrow>
                         Inr (t\<lparr>dt_store := (dt_store t)(p := Some (dn\<lparr>children := children dn @ [the n]\<rparr>))\<rparr>)))))"

text \<open>
  The constructor with \<open>create\<close>. The first argument bounds the passes of the fixed
  point and the steps of each \<open>lca\<close>.
\<close>

definition DomTree_create ::
  "nat \<Rightarrow> cfg \<Rightarrow> Scope \<Rightarrow> World \<Rightarrow> bool \<Rightarrow> error + DomTree" where
  "DomTree_create n g sc w fw =
     (case for_all (create_node w) (rpo sc) (DomTree_new sc fw) of
        Inl e \<Rightarrow> Inl e
      | Inr t1 \<Rightarrow>
          (case DomTree_entries g sc w t1 of
             Inl e \<Rightarrow> Inl e
           | Inr entries \<Rightarrow>
               (case for_all (init_entry sc w) entries t1 of
                  Inl e \<Rightarrow> Inl e
                | Inr t2 \<Rightarrow>
                    (case DomTree_body g sc w t2 of
                       Inl e \<Rightarrow> Inl e
                     | Inr body \<Rightarrow>
                         (case for_all (init_idom g sc w) body t2 of
                            Inl e \<Rightarrow> Inl e
                          | Inr t3 \<Rightarrow>
                              (case fixpoint n n g sc w body t3 of
                                 Inl e \<Rightarrow> Inl e
                               | Inr t4 \<Rightarrow> for_all (add_child sc w) body t4))))))"

definition DomTree_idom :: "Scope \<Rightarrow> World \<Rightarrow> DomTree \<Rightarrow> nat \<Rightarrow> error + nat option" where
  "DomTree_idom sc w t lambda =
     (case DomTree_lookup sc w t lambda of Inl e \<Rightarrow> Inl e | Inr n \<Rightarrow> get_idom n t)"

text \<open>The diamond scope as \<open>Scope::process\<close> leaves it.\<close>

definition scope_diamond_rpo :: Scope where
  "scope_diamond_rpo = scope_diamond\<lparr>rpo := [0, 2, 1, 3]\<rparr>"

section \<open>Theorems\<close>

subsection \<open>Literals\<close>

lemma PrimLit_equal_iff:
  "PrimLit_equal a b \<longleftrightarrow> Literal_equal a b \<and> box a = box b"
  by (simp add: PrimLit_equal_def)

lemma World_literal_find:
  "find P xs = Some m \<Longrightarrow> P m \<and> m \<in> set xs"
  by (induction xs) (auto split: if_splits)

lemma World_literal_result:
  "PrimLit_equal (fst (World_literal h w k ty b))
     \<lparr>lit_gid = lit_counter w, lit_kind = k, lit_type = ty, box = b\<rparr>"
proof (cases "find (\<lambda>m. PrimLit_hash h m =
      PrimLit_hash h \<lparr>lit_gid = lit_counter w, lit_kind = k, lit_type = ty, box = b\<rparr> \<and>
      PrimLit_equal m \<lparr>lit_gid = lit_counter w, lit_kind = k, lit_type = ty, box = b\<rparr>) (primlits w)")
  case None
  then show ?thesis
    by (simp add: World_literal_def PrimLit_equal_def Literal_equal_def Let_def)
next
  case (Some m)
  from World_literal_find [OF Some] show ?thesis
    using Some by (simp add: World_literal_def Let_def)
qed

text \<open>
  C9. Two PrimLit nodes are equal iff they are base-equal (same kind and type) and their
  boxes are bit-identical; the hash is the base hash combined with the box read as u64;
  equal nodes have equal hashes; and hash-consing never hands out, for a requested type
  and box, a node of that type with a different bit pattern: the node returned by
  \<open>World::literal\<close> has the requested type and box, and a table entry of the same type
  whose box differs is not the node returned.
\<close>

theorem PrimLit_equal_hash:
  "(PrimLit_equal a b \<longleftrightarrow>
      (lit_kind a = lit_kind b \<and> lit_type a = lit_type b) \<and> (\<forall>n. bit (box a) n = bit (box b) n))
   \<and> PrimLit_hash h a = hash_combine (Literal_hash h a) (bcast (box a))
   \<and> (PrimLit_equal a b \<longrightarrow> PrimLit_hash h a = PrimLit_hash h b)
   \<and> box (fst (World_literal h w k ty c)) = c
   \<and> lit_type (fst (World_literal h w k ty c)) = ty
   \<and> (lit_type a = ty \<and> box a \<noteq> c \<longrightarrow> fst (World_literal h w k ty c) \<noteq> a)"
proof -
  have eq: "PrimLit_equal a b \<longleftrightarrow>
      (lit_kind a = lit_kind b \<and> lit_type a = lit_type b) \<and> (\<forall>n. bit (box a) n = bit (box b) n)"
    using bit_eq_iff [of "box a" "box b"] by (auto simp: PrimLit_equal_iff Literal_equal_def)
  have hash: "PrimLit_equal a b \<longrightarrow> PrimLit_hash h a = PrimLit_hash h b"
    by (simp add: PrimLit_equal_iff Literal_equal_def PrimLit_hash_def Literal_hash_def)
  have res: "box (fst (World_literal h w k ty c)) = c \<and> lit_type (fst (World_literal h w k ty c)) = ty"
    using World_literal_result [of h w k ty c]
    by (simp add: PrimLit_equal_iff Literal_equal_def)
  from res have "lit_type a = ty \<and> box a \<noteq> c \<longrightarrow> fst (World_literal h w k ty c) \<noteq> a"
    by auto
  with eq hash res show ?thesis
    by (simp add: PrimLit_hash_def)
qed

theorem PrimLit_equal_hash_witness:
  "\<not> PrimLit_equal \<lparr>lit_gid = 0, lit_kind = 1, lit_type = PrimType 3, box = 0\<rparr>
        \<lparr>lit_gid = 1, lit_kind = 1, lit_type = PrimType 3, box = 0x8000000000000000\<rparr>
   \<and> PrimLit_equal \<lparr>lit_gid = 0, lit_kind = 1, lit_type = PrimType 3, box = 7\<rparr>
        \<lparr>lit_gid = 5, lit_kind = 1, lit_type = PrimType 3, box = 7\<rparr>
   \<and> fst (World_literal (\<lambda>k t. 0)
        \<lparr>primlits = [\<lparr>lit_gid = 0, lit_kind = 1, lit_type = PrimType 3, box = 0\<rparr>], lit_counter = 1\<rparr>
        1 (PrimType 3) 0x8000000000000000)
       = \<lparr>lit_gid = 1, lit_kind = 1, lit_type = PrimType 3, box = 0x8000000000000000\<rparr>"
  using PrimLit_equal_hash [of
      "\<lparr>lit_gid = 0, lit_kind = 1, lit_type = PrimType 3, box = 0\<rparr>"
      "\<lparr>lit_gid = 1, lit_kind = 1, lit_type = PrimType 3, box = 0x8000000000000000\<rparr>"
      "\<lambda>k t. 0"
      "\<lparr>primlits = [\<lparr>lit_gid = 0, lit_kind = 1, lit_type = PrimType 3, box = 0\<rparr>], lit_counter = 1\<rparr>"
      1 "PrimType 3" "0x8000000000000000"]
  by (simp add: PrimLit_equal_def Literal_equal_def World_literal_def PrimLit_hash_def
      Literal_hash_def hash_combine_def bcast_def Let_def)

subsection \<open>CFF lowering\<close>

text \<open>
  C6 (as stated) fails in the global phase: a non-empty callee that is not in \<open>top\<close>
  and is not a basic block is bad, although it is no known top-level lambda.
\<close>

theorem is_bad_global_counterexample:
  "\<not> (\<forall>local tops scope to. \<not> cff_empty to \<longrightarrow>
        (is_bad local tops scope to \<longleftrightarrow>
          (if local then inner_contains scope (cff_gid to) \<and> \<not> cff_is_basicblock to
           else cff_gid to \<in> tops \<and> \<not> cff_is_basicblock to \<and> \<not> cff_is_returning to
                \<and> \<not> outer_contains scope (cff_gid to))))"
proof
  assume a: "\<forall>local tops scope to. \<not> cff_empty to \<longrightarrow>
        (is_bad local tops scope to \<longleftrightarrow>
          (if local then inner_contains scope (cff_gid to) \<and> \<not> cff_is_basicblock to
           else cff_gid to \<in> tops \<and> \<not> cff_is_basicblock to \<and> \<not> cff_is_returning to
                \<and> \<not> outer_contains scope (cff_gid to)))"
  define S where "S = \<lparr>inner_contains = \<lambda>l::nat. False, outer_contains = \<lambda>l::nat. False\<rparr>"
  define T where "T = \<lparr>cff_gid = 0, cff_empty = False, cff_is_basicblock = False,
    cff_is_returning = True\<rparr>"
  have bad: "is_bad False {} S T"
    by (simp add: is_bad_def S_def T_def)
  have nonempty: "\<not> cff_empty T"
    by (simp add: T_def)
  from a nonempty have "is_bad False {} S T \<longleftrightarrow>
      (if False then inner_contains S (cff_gid T) \<and> \<not> cff_is_basicblock T
       else cff_gid T \<in> {} \<and> \<not> cff_is_basicblock T \<and> \<not> cff_is_returning T
            \<and> \<not> outer_contains S (cff_gid T))"
    by blast
  with bad show False by simp
qed

text \<open>
  C6 (amended). A call to a non-empty callee T is bad: in the local phase iff T is inside
  the current scope (\<open>inner_contains\<close>) and is not a basic block; in the global phase,
  for T in \<open>top\<close> iff T is not returning and the scope does not \<open>outer_contains\<close> it,
  and for T not in \<open>top\<close> iff T is not a basic block. An empty callee is never bad.
\<close>

theorem is_bad_phases:
  "(cff_empty to \<longrightarrow> \<not> is_bad local tops scope to)
   \<and> (\<not> cff_empty to \<and> local \<longrightarrow>
        (is_bad local tops scope to \<longleftrightarrow>
           inner_contains scope (cff_gid to) \<and> \<not> cff_is_basicblock to))
   \<and> (\<not> cff_empty to \<and> \<not> local \<and> cff_gid to \<in> tops \<longrightarrow>
        (is_bad local tops scope to \<longleftrightarrow>
           \<not> cff_is_returning to \<and> \<not> outer_contains scope (cff_gid to)))
   \<and> (\<not> cff_empty to \<and> \<not> local \<and> cff_gid to \<notin> tops \<longrightarrow>
        (is_bad local tops scope to \<longleftrightarrow> \<not> cff_is_basicblock to))"
  by (simp add: is_bad_def)

theorem is_bad_phases_witness:
  "is_bad True {} \<lparr>inner_contains = \<lambda>l. l = 4, outer_contains = \<lambda>l. l = 4 \<or> l = 2\<rparr>
      \<lparr>cff_gid = 4, cff_empty = False, cff_is_basicblock = False, cff_is_returning = True\<rparr>
   \<and> \<not> is_bad False {4} \<lparr>inner_contains = \<lambda>l. l = 4, outer_contains = \<lambda>l. l = 4 \<or> l = 2\<rparr>
      \<lparr>cff_gid = 4, cff_empty = False, cff_is_basicblock = False, cff_is_returning = True\<rparr>
   \<and> is_bad False {4} \<lparr>inner_contains = \<lambda>l. False, outer_contains = \<lambda>l. False\<rparr>
      \<lparr>cff_gid = 4, cff_empty = False, cff_is_basicblock = True, cff_is_returning = False\<rparr>
   \<and> is_bad False {} \<lparr>inner_contains = \<lambda>l. False, outer_contains = \<lambda>l. False\<rparr>
      \<lparr>cff_gid = 4, cff_empty = False, cff_is_basicblock = False, cff_is_returning = True\<rparr>
   \<and> \<not> is_bad True {} \<lparr>inner_contains = \<lambda>l. True, outer_contains = \<lambda>l. True\<rparr>
      \<lparr>cff_gid = 4, cff_empty = True, cff_is_basicblock = False, cff_is_returning = True\<rparr>"
  using
    is_bad_phases [of "\<lparr>cff_gid = 4, cff_empty = False, cff_is_basicblock = False, cff_is_returning = True\<rparr>"
      True "{}" "\<lparr>inner_contains = \<lambda>l. l = 4, outer_contains = \<lambda>l. l = 4 \<or> l = 2\<rparr>"]
    is_bad_phases [of "\<lparr>cff_gid = 4, cff_empty = False, cff_is_basicblock = False, cff_is_returning = True\<rparr>"
      False "{4}" "\<lparr>inner_contains = \<lambda>l. l = 4, outer_contains = \<lambda>l. l = 4 \<or> l = 2\<rparr>"]
    is_bad_phases [of "\<lparr>cff_gid = 4, cff_empty = False, cff_is_basicblock = True, cff_is_returning = False\<rparr>"
      False "{4}" "\<lparr>inner_contains = \<lambda>l. False, outer_contains = \<lambda>l. False\<rparr>"]
    is_bad_phases [of "\<lparr>cff_gid = 4, cff_empty = False, cff_is_basicblock = False, cff_is_returning = True\<rparr>"
      False "{}" "\<lparr>inner_contains = \<lambda>l. False, outer_contains = \<lambda>l. False\<rparr>"]
    is_bad_phases [of "\<lparr>cff_gid = 4, cff_empty = True, cff_is_basicblock = False, cff_is_returning = True\<rparr>"
      True "{}" "\<lparr>inner_contains = \<lambda>l. True, outer_contains = \<lambda>l. True\<rparr>"]
  by simp

subsection \<open>Scope: the postorder walk\<close>























lemma sub_mod_wrap:
  assumes "b \<le> a" "a < (N::nat)"
  shows "(a + N - b) mod N = a - b"
proof -
  from assms(1) have e: "a + N - b = (a - b) + N" by arith
  from assms(2) have l: "a - b < N" by arith
  have "(a + N - b) mod N = ((a - b) + N) mod N" by (simp only: e)
  also have "\<dots> = (a - b) mod N" by (rule mod_add_self2)
  also have "\<dots> = a - b" using l by (rule mod_less)
  finally show ?thesis .
qed

lemma size_t_sub_le: "b \<le> a \<Longrightarrow> a < 2 ^ 64 \<Longrightarrow> size_t_sub a b = a - b"
  unfolding size_t_sub_def by (rule sub_mod_wrap)


lemma reflect_inj: "inj_on (\<lambda>k. n - 1 - k) {0..<n::nat}"
  by (rule inj_onI) auto


subsection \<open>Scope: evaluation on two small graphs\<close>

lemma size_t_max_gt: "0 < size_t_max" "1 < size_t_max" "2 < size_t_max" "3 < size_t_max"
  "4 < size_t_max" "Suc 0 < size_t_max"
  by (simp_all add: size_t_max_def)


definition world_diamond_rpo :: World where
  "world_diamond_rpo = \<lparr>lambdas =
        [\<lparr>sid = 0, backwards_sid = size_t_max, scope_of = Some 7, cur_pass = 1\<rparr>,
         \<lparr>sid = 2, backwards_sid = size_t_max, scope_of = Some 7, cur_pass = 1\<rparr>,
         \<lparr>sid = 1, backwards_sid = size_t_max, scope_of = Some 7, cur_pass = 1\<rparr>,
         \<lparr>sid = 3, backwards_sid = size_t_max, scope_of = Some 7, cur_pass = 1\<rparr>,
         \<lparr>sid = size_t_max, backwards_sid = size_t_max, scope_of = None, cur_pass = 0\<rparr>],
        pass_counter = 1\<rparr>"

lemma process_number_diamond:
  "process_number cfg_diamond scope_diamond [0] world_diamond = (1, \<lparr>lambdas =
        [\<lparr>sid = 3, backwards_sid = size_t_max, scope_of = Some 7, cur_pass = 1\<rparr>,
         \<lparr>sid = 1, backwards_sid = size_t_max, scope_of = Some 7, cur_pass = 1\<rparr>,
         \<lparr>sid = 2, backwards_sid = size_t_max, scope_of = Some 7, cur_pass = 1\<rparr>,
         \<lparr>sid = 0, backwards_sid = size_t_max, scope_of = Some 7, cur_pass = 1\<rparr>,
         \<lparr>sid = size_t_max, backwards_sid = size_t_max, scope_of = Some 7, cur_pass = 0\<rparr>],
        pass_counter = 1\<rparr>, 4)"
  by (simp add: process_number_def new_pass_def cfg_diamond_def scope_diamond_def world_diamond_def Lambda_new_def
      visit_first_def set_sid_def contains_def is_visited_def number_edges_def numeral_eq_Suc)

lemma Scope_process_diamond:
  "Scope_process cfg_diamond scope_diamond [0] world_diamond = Inr (world_diamond_rpo, scope_diamond\<lparr>rpo := [0, 2, 1, 3]\<rparr>)"
proof -
  have m: "\<not> size_t_max \<le> 3" "\<not> size_t_max \<le> 2" "\<not> size_t_max \<le> 1" "\<not> size_t_max \<le> 0"
    "\<not> size_t_max \<le> Suc 0" "3 \<le> size_t_max" "2 \<le> size_t_max" "Suc 0 \<le> size_t_max"
    by (simp_all add: size_t_max_def)
  show ?thesis
    unfolding Scope_process_def process_number_diamond prod.case
    by (simp add: Scope_size_def process_convert_def is_visited_def
      set_sid_def size_t_sub_le m sid_of_def Let_def scope_diamond_def world_diamond_rpo_def)
qed


lemma process_number_single: "process_number cfg_single scope_single [0] world_single = (1, world_single_rpo, 1)"
  by (simp add: process_number_def new_pass_def cfg_single_def scope_single_def world_single_def world_single_rpo_def Lambda_new_def
      visit_first_def set_sid_def)

lemma Scope_process_single: "Scope_process cfg_single scope_single [0] world_single = Inr (world_single_rpo, scope_single)"
  unfolding Scope_process_def process_number_single prod.case
  by (simp add: Scope_size_def scope_single_def world_single_rpo_def process_convert_def is_visited_def set_sid_def
      size_t_sub_le sid_of_def Let_def)

lemma Scope_destroy_single:
  "Scope_destroy scope_single world_single_rpo = \<lparr>lambdas = [\<lparr>sid = 0, backwards_sid = size_t_max, scope_of = None, cur_pass = 1\<rparr>],
      pass_counter = 1\<rparr>"
  by (simp add: Scope_destroy_def release_def scope_single_def world_single_rpo_def)

lemma backwards_single:
  "Scope_backwards_rpo cfg_single scope_single world_single_rpo = Inr ([None], scope_single\<lparr>backwards_rpo_arr := Some [None], num_exits := 1\<rparr>, world_single_rpo)"
  by (simp add: Scope_backwards_rpo_def scope_single_def num_succs_def Scope_succs_def contains_def
      world_single_rpo_def Scope_size_def sid_of_def cfg_single_def Let_def)


lemma fold_release:
  "length (lambdas (fold release xs w)) = length (lambdas w)
   \<and> (\<forall>l<length (lambdas w). lambdas (fold release xs w) ! l =
        (if l \<in> set xs then (lambdas w ! l)\<lparr>scope_of := None\<rparr> else lambdas w ! l))"
proof (induction xs arbitrary: w)
  case Nil
  show ?case by simp
next
  case (Cons x xs)
  have len: "length (lambdas (release x w)) = length (lambdas w)"
    by (simp add: release_def)
  have nth: "lambdas (release x w) ! l =
      (if l = x then (lambdas w ! l)\<lparr>scope_of := None\<rparr> else lambdas w ! l)"
    if "l < length (lambdas w)" for l
    using that by (simp add: release_def nth_list_update)
  from Cons.IH [of "release x w"] show ?case
    by (auto simp: len nth)
qed

text \<open>
  C7 (as stated) fails: the destructor writes \<open>scope_\<close>, not \<open>sid_\<close>. For the scope of
  a single lambda without successors, the lambda has sid 0 after construction and still
  has sid 0, not \<open>size_t(-1)\<close>, after destruction.
\<close>

theorem Scope_destroy_sid_counterexample:
  "Scope_process cfg_single scope_single [0] world_single = Inr (world_single_rpo, scope_single)
   \<and> 0 \<in> set (rpo scope_single)
   \<and> sid_of world_single_rpo 0 = 0
   \<and> sid_of (Scope_destroy scope_single world_single_rpo) 0 = 0
   \<and> sid_of (Scope_destroy scope_single world_single_rpo) 0 \<noteq> size_t_max"
  using Scope_process_single size_t_max_gt(1)
  by (simp add: Scope_destroy_single sid_of_def) (simp add: scope_single_def world_single_rpo_def)

text \<open>
  C7 (amended). When a Scope is destroyed, the back pointer \<open>scope_\<close> of every lambda of
  \<open>rpo()\<close> is reset to 0, so that no lambda of \<open>rpo()\<close> is contained in the scope any
  more; \<open>sid_\<close>, \<open>backwards_sid_\<close> and the pass mark of every lambda are left as
  they were, and a lambda outside \<open>rpo()\<close> is not touched.
\<close>

theorem Scope_destroy_releases:
  "length (lambdas (Scope_destroy sc w)) = length (lambdas w)
   \<and> (\<forall>l<length (lambdas w).
        lambdas (Scope_destroy sc w) ! l =
          (if l \<in> set (rpo sc) then (lambdas w ! l)\<lparr>scope_of := None\<rparr> else lambdas w ! l)
        \<and> sid_of (Scope_destroy sc w) l = sid_of w l
        \<and> (l \<in> set (rpo sc) \<longrightarrow> \<not> contains sc (Scope_destroy sc w) l))"
  using fold_release [of "rpo sc" w]
  by (simp add: Scope_destroy_def sid_of_def contains_def)

theorem Scope_destroy_releases_witness:
  "lambdas (Scope_destroy scope_single world_single_rpo) ! 0 = (lambdas world_single_rpo ! 0)\<lparr>scope_of := None\<rparr>
   \<and> sid_of (Scope_destroy scope_single world_single_rpo) 0 = sid_of world_single_rpo 0
   \<and> \<not> contains scope_single (Scope_destroy scope_single world_single_rpo) 0
   \<and> contains scope_single world_single_rpo 0"
  using Scope_destroy_releases [of scope_single world_single_rpo]
  by (simp add: scope_single_def world_single_rpo_def contains_def)

text \<open>
  C8 (evaluation at the failing input). For the scope of a single lambda without
  successors, which is its own exit, \<open>backwards_rpo()\<close> returns an array of one null
  pointer and sets \<open>num_exits_\<close> to 1; it writes no lambda, so the exit still has
  \<open>backwards_sid_ = size_t(-1)\<close>, which is no index below the size of the scope.
\<close>

theorem Scope_backwards_rpo_single:
  "Scope_process cfg_single scope_single [0] world_single = Inr (world_single_rpo, scope_single)
   \<and> Scope_backwards_rpo cfg_single scope_single world_single_rpo =
       Inr ([None], scope_single\<lparr>backwards_rpo_arr := Some [None], num_exits := 1\<rparr>, world_single_rpo)
   \<and> backwards_sid (lambdas world_single_rpo ! 0) = size_t_max
   \<and> \<not> backwards_sid (lambdas world_single_rpo ! 0) < Scope_size scope_single"
  using Scope_process_single backwards_single size_t_max_gt(2)
  by (simp add: world_single_rpo_def Scope_size_def scope_single_def)

subsection \<open>SSA construction: the value table\<close>

lemma vec_resize_grow:
  "length xs \<le> n \<Longrightarrow> vec_resize n xs = xs @ replicate (n - length xs) None"
  by (simp add: vec_resize_def)

lemma lams_upd_lambda:
  "this < length (lams w) \<Longrightarrow> lams (upd_lambda w this f) ! this = f (lams w ! this)"
  by (simp add: upd_lambda_def)

lemma length_upd_lambda: "length (lams (upd_lambda w this f)) = length (lams w)"
  by (simp add: upd_lambda_def)

lemma upd_lambda_upd_lambda:
  "upd_lambda (upd_lambda w this f) this g = upd_lambda w this (g \<circ> f)"
  by (cases "this < length (lams w)") (simp_all add: upd_lambda_def list_update_beyond)

lemma find_tracker_bound:
  assumes "this < length (lams w)" "handle < length (tracked_values (lams w ! this))"
  shows "find_tracker w this handle = Inr (tracked_values (lams w ! this) ! handle, w)"
  using assms by (simp add: find_tracker_def)

lemma find_tracker_grow:
  assumes "this < length (lams w)" "length (tracked_values (lams w ! this)) \<le> handle"
    "handle < 2 ^ 64 - 1" "handle < max_slots w"
  shows "find_tracker w this handle =
    Inr (None, upd_lambda w this (\<lambda>l. l\<lparr>tracked_values :=
       tracked_values l @ replicate (handle + 1 - length (tracked_values l)) None\<rparr>))"
proof -
  from assms(3) have m: "(handle + 1) mod 2 ^ 64 = handle + 1" by simp
  have r: "vec_resize (handle + 1) (tracked_values (lams w ! this)) =
      tracked_values (lams w ! this) @
        replicate (handle + 1 - length (tracked_values (lams w ! this))) None"
    using assms(2) by (intro vec_resize_grow) simp
  have u: "upd_lambda w this (\<lambda>l. l\<lparr>tracked_values := vec_resize (handle + 1) (tracked_values l)\<rparr>) =
     upd_lambda w this (\<lambda>l. l\<lparr>tracked_values :=
       tracked_values l @ replicate (handle + 1 - length (tracked_values l)) None\<rparr>)"
    using r by (simp add: upd_lambda_def)
  show ?thesis
    using assms(1,2,4) unfolding find_tracker_def m Let_def u
    by (simp add: lams_upd_lambda nth_append)
qed

lemma find_tracker_resize_fails:
  assumes "length (tracked_values (lams w ! this)) \<le> handle"
    "handle < 2 ^ 64 - 1" "max_slots w \<le> handle"
  shows "find_tracker w this handle = Inl ResizeFailure"
proof -
  from assms(2) have m: "(handle + 1) mod 2 ^ 64 = handle + 1" by simp
  show ?thesis
    using assms(1,3) unfolding find_tracker_def m by simp
qed

lemma find_tracker_wrap:
  assumes "this < length (lams w)" "length (tracked_values (lams w ! this)) \<le> 2 ^ 64 - 1"
  shows "find_tracker w this (2 ^ 64 - 1) = Inl OutOfBounds"
proof -
  have m: "((2::nat) ^ 64 - 1 + 1) mod 2 ^ 64 = 0" by simp
  show ?thesis
    using assms unfolding find_tracker_def m Let_def
    by (simp add: lams_upd_lambda vec_resize_def)
qed


lemma upd_lambda_same:
  "f (lams w ! this) = lams w ! this \<Longrightarrow> upd_lambda w this f = w"
  by (simp add: upd_lambda_def)

lemma find_tracker_grown:
  assumes "this < length (lams w)"
    "handle < length (tracked_values (lams w ! this)) \<or> handle < max_slots w \<and> handle < 2 ^ 64 - 1"
  shows "find_tracker w this handle =
    Inr (grown handle (tracked_values (lams w ! this)) ! handle,
         upd_lambda w this (\<lambda>l. l\<lparr>tracked_values := grown handle (tracked_values l)\<rparr>))"
proof (cases "handle < length (tracked_values (lams w ! this))")
  case True
  then have g: "grown handle (tracked_values (lams w ! this)) = tracked_values (lams w ! this)"
    by (simp add: grown_def)
  have "upd_lambda w this (\<lambda>l. l\<lparr>tracked_values := grown handle (tracked_values l)\<rparr>) = w"
    by (rule upd_lambda_same) (simp add: g)
  with True assms(1) show ?thesis
    by (simp add: find_tracker_bound g)
next
  case False
  then have le: "length (tracked_values (lams w ! this)) \<le> handle" by simp
  have nth: "grown handle (tracked_values (lams w ! this)) ! handle = None"
    using le by (simp add: grown_def nth_append)
  from False assms(2) have lim: "handle < 2 ^ 64 - 1" "handle < max_slots w" by simp_all
  show ?thesis
    using find_tracker_grow [OF assms(1) le lim] nth
    by (simp add: grown_def [abs_def])
qed

lemma set_value_grown:
  assumes "this < length (lams w)"
    "handle < length (tracked_values (lams w ! this)) \<or> handle < max_slots w \<and> handle < 2 ^ 64 - 1"
  shows "set_value w this handle v =
    Inr (v, upd_lambda w this (\<lambda>l. l\<lparr>tracked_values := (grown handle (tracked_values l))[handle := Some v]\<rparr>))"
  using assms by (simp add: set_value_def find_tracker_grown upd_lambda_upd_lambda comp_def)

lemma length_grown: "handle < length (grown handle tv)"
  by (simp add: grown_def)

lemma get_value_bound:
  assumes "this < length (lams w)" "handle < length (tracked_values (lams w ! this))"
    "tracked_values (lams w ! this) ! handle = Some v"
  shows "get_value (Suc n) w this handle ty name = Inr (v, w)"
  using assms by (simp add: find_tracker_bound)

lemma upt4: "[0..<4] = [0, 1, 2, 3]" by code_simp

lemma graph_loop_facts:
  "length (lams graph_loop) = 4"
  "parent (lams graph_loop ! Suc 0) = Some (Suc 0)"
  "is_sealed (lams graph_loop ! Suc 0)"
  "Lambda_preds graph_loop (Suc 0) = []"
  "tracked_values (lams graph_loop ! Suc 0) = []"
  "tracked_values (lams graph_loop ! 0) = []"
  "cerr graph_loop = []"
  "max_slots graph_loop = 2 ^ 20"
  by (simp_all add: graph_loop_def head_def lit7_def Lambda_preds_def operand_lambdas_def upt4)

text \<open>
  C10, as amended. For every lambda, every definition \<open>v\<close> and every handle \<open>h\<close>
  that lies inside the value table, or for which \<open>h + 1\<close> is a \<open>size_t\<close> and a
  size that \<open>resize\<close> grants (\<open>h < 2^64 - 1\<close> and \<open>h < max_slots\<close>):
  \<open>set_value(h, v)\<close> returns \<open>v\<close> and \<open>get_value(h, tau, name)\<close> on the same
  lambda then returns \<open>v\<close> and changes nothing; no other lambda is touched; on a
  handle inside the value table the table keeps its length and only slot \<open>h\<close> changes
  (the binding is replaced, not duplicated); on a handle at or beyond the size of the
  table, the table grows to \<open>h + 1\<close> slots, the fresh ones unbound, and
  \<open>find_tracker\<close> returns the null tracker of the new slot.
\<close>

theorem set_value_get_value:
  assumes "this < length (lams w)"
    "handle < length (tracked_values (lams w ! this)) \<or> handle < max_slots w \<and> handle < 2 ^ 64 - 1"
  shows "\<exists>w'. set_value w this handle v = Inr (v, w')
     \<and> get_value (Suc n) w' this handle ty name = Inr (v, w')
     \<and> length (lams w') = length (lams w)
     \<and> (\<forall>l<length (lams w). l \<noteq> this \<longrightarrow> lams w' ! l = lams w ! l)
     \<and> lams w' ! this = (lams w ! this)\<lparr>tracked_values :=
          (grown handle (tracked_values (lams w ! this)))[handle := Some v]\<rparr>
     \<and> (handle < length (tracked_values (lams w ! this)) \<longrightarrow>
          length (tracked_values (lams w' ! this)) = length (tracked_values (lams w ! this))
          \<and> tracked_values (lams w' ! this) = (tracked_values (lams w ! this))[handle := Some v])
     \<and> (length (tracked_values (lams w ! this)) \<le> handle \<longrightarrow>
          find_tracker w this handle =
            Inr (None, upd_lambda w this (\<lambda>l. l\<lparr>tracked_values :=
                tracked_values l @ replicate (handle + 1 - length (tracked_values l)) None\<rparr>)))"
proof -
  let ?w' = "upd_lambda w this (\<lambda>l. l\<lparr>tracked_values := (grown handle (tracked_values l))[handle := Some v]\<rparr>)"
  have s: "set_value w this handle v = Inr (v, ?w')"
    using assms by (rule set_value_grown)
  have t: "lams ?w' ! this = (lams w ! this)\<lparr>tracked_values :=
          (grown handle (tracked_values (lams w ! this)))[handle := Some v]\<rparr>"
    using assms(1) by (simp add: lams_upd_lambda)
  have g: "get_value (Suc n) ?w' this handle ty name = Inr (v, ?w')"
  proof (rule get_value_bound)
    show "this < length (lams ?w')" using assms(1) by (simp add: length_upd_lambda)
    show "handle < length (tracked_values (lams ?w' ! this))"
      unfolding t by (simp add: length_grown)
    show "tracked_values (lams ?w' ! this) ! handle = Some v"
      unfolding t by (simp add: length_grown)
  qed
  have o: "\<forall>l<length (lams w). l \<noteq> this \<longrightarrow> lams ?w' ! l = lams w ! l"
    by (simp add: upd_lambda_def)
  have b: "handle < length (tracked_values (lams w ! this)) \<longrightarrow>
          length (tracked_values (lams ?w' ! this)) = length (tracked_values (lams w ! this))
          \<and> tracked_values (lams ?w' ! this) = (tracked_values (lams w ! this))[handle := Some v]"
    unfolding t by (simp add: grown_def)
  have c: "length (tracked_values (lams w ! this)) \<le> handle \<longrightarrow>
          find_tracker w this handle =
            Inr (None, upd_lambda w this (\<lambda>l. l\<lparr>tracked_values :=
                tracked_values l @ replicate (handle + 1 - length (tracked_values l)) None\<rparr>))"
    using assms by (auto simp add: find_tracker_grow)
  from s g t o b c show ?thesis
    by (intro exI [of _ ?w']) (simp add: length_upd_lambda)
qed

theorem set_value_get_value_witness:
  "(0::nat) < length (lams graph_loop) \<and> (2::nat) < max_slots graph_loop \<and> (2::nat) < 2 ^ 64 - 1
   \<and> (\<exists>w'. set_value graph_loop 0 2 lit7 = Inr (lit7, w')
          \<and> get_value (Suc 0) w' 0 2 int_ty ''x'' = Inr (lit7, w')
          \<and> tracked_values (lams w' ! 0) = [None, None, Some lit7])"
proof -
  have lim: "(2::nat) < max_slots graph_loop" "(2::nat) < 2 ^ 64 - 1"
    by (simp_all add: graph_loop_facts)
  have pre: "(0::nat) < length (lams graph_loop)"
    "2 < length (tracked_values (lams graph_loop ! 0)) \<or> 2 < max_slots graph_loop \<and> (2::nat) < 2 ^ 64 - 1"
    using lim by (simp_all add: graph_loop_facts)
  from set_value_get_value [OF pre, of lit7 0 int_ty "''x''"]
  obtain w' where w': "set_value graph_loop 0 2 lit7 = Inr (lit7, w')"
    "get_value (Suc 0) w' 0 2 int_ty ''x'' = Inr (lit7, w')"
    "lams w' ! 0 = (lams graph_loop ! 0)\<lparr>tracked_values :=
          (grown 2 (tracked_values (lams graph_loop ! 0)))[2 := Some lit7]\<rparr>"
    by blast
  have "(grown 2 [])[2 := Some lit7] = [None, None, Some lit7]"
    by (simp add: grown_def numeral_2_eq_2)
  with w'(3) have "tracked_values (lams w' ! 0) = [None, None, Some lit7]"
    by (simp add: graph_loop_facts)
  with w'(1,2) pre(1) lim show ?thesis by blast
qed

text \<open>
  At the handle \<open>2^64 - 2\<close> the new size \<open>2^64 - 1\<close> is more than any vector of
  pointers holds, and \<open>resize\<close> fails. At the handle \<open>2^64 - 1\<close> the new size
  \<open>handle + 1\<close> is 0: the table is emptied and then indexed out of range.
\<close>

theorem set_value_wraps_counterexample:
  "set_value graph_loop 0 (2 ^ 64 - 2) lit7 = Inl ResizeFailure
   \<and> set_value graph_loop 0 (2 ^ 64 - 1) lit7 = Inl OutOfBounds"
proof -
  have "find_tracker graph_loop 0 (2 ^ 64 - 2) = Inl ResizeFailure"
    by (rule find_tracker_resize_fails) (simp_all add: graph_loop_facts)
  moreover have "find_tracker graph_loop 0 (2 ^ 64 - 1) = Inl OutOfBounds"
    by (rule find_tracker_wrap) (simp_all add: graph_loop_facts)
  ultimately show ?thesis by (simp add: set_value_def)
qed

subsection \<open>SSA construction: a sealed head without predecessors\<close>

text \<open>
  C4, as amended. For every sealed head lambda with zero predecessors,
  \<open>get_value(h, tau, name)\<close> on a handle \<open>h\<close> with no local binding, whose slot
  lies inside the value table or can be added to it (\<open>h + 1\<close> is a \<open>size_t\<close> and a
  size that \<open>resize\<close> grants: \<open>h < 2^64 - 1\<close> and \<open>h < max_slots\<close>),
  returns \<open>bottom(tau)\<close>, appends the line \<open>'name' may be undefined\<close> to the
  diagnostics, binds \<open>h\<close> to \<open>bottom(tau)\<close> in the value table of the lambda and
  leaves every other lambda alone; a later \<open>get_value\<close> on \<open>h\<close> returns the cached
  \<open>bottom(tau)\<close> without a further diagnostic.
\<close>

theorem get_value_no_preds:
  assumes "this < length (lams w)"
    "handle < length (tracked_values (lams w ! this)) \<or> handle < max_slots w \<and> handle < 2 ^ 64 - 1"
    and head: "parent (lams w ! this) = Some this"
    and sealed: "is_sealed (lams w ! this)"
    and nopreds: "Lambda_preds w this = []"
    and unbound: "handle < length (tracked_values (lams w ! this)) \<longrightarrow>
       tracked_values (lams w ! this) ! handle = None"
  shows "\<exists>w'. get_value (Suc n) w this handle ty name = Inr (World_bottom ty, w')
     \<and> cerr w' = cerr w @ [[CHR 0x27] @ name @ [CHR 0x27] @ '' may be undefined'']
     \<and> length (lams w') = length (lams w)
     \<and> (\<forall>l<length (lams w). l \<noteq> this \<longrightarrow> lams w' ! l = lams w ! l)
     \<and> lams w' ! this = (lams w ! this)\<lparr>tracked_values :=
          (grown handle (tracked_values (lams w ! this)))[handle := Some (World_bottom ty)]\<rparr>
     \<and> max_slots w' = max_slots w
     \<and> get_value (Suc m) w' this handle ty' name' = Inr (World_bottom ty, w')"
proof -
  let ?g = "\<lambda>l. l\<lparr>tracked_values := grown handle (tracked_values l)\<rparr>"
  let ?w1 = "upd_lambda w this ?g"
  let ?w2 = "?w1\<lparr>cerr := cerr ?w1 @ [[CHR 0x27] @ name @ [CHR 0x27] @ '' may be undefined'']\<rparr>"
  let ?w' = "upd_lambda ?w2 this (\<lambda>l. l\<lparr>tracked_values := (grown handle (tracked_values l))[handle := Some (World_bottom ty)]\<rparr>)"
  have none: "grown handle (tracked_values (lams w ! this)) ! handle = None"
    using unbound by (cases "handle < length (tracked_values (lams w ! this))")
      (simp_all add: grown_def nth_append)
  have ft: "find_tracker w this handle = Inr (None, ?w1)"
    using find_tracker_grown [OF assms(1,2)] none by simp
  have l1: "lams ?w1 ! this = ?g (lams w ! this)"
    using assms(1) by (simp add: lams_upd_lambda)
  have p1: "Lambda_preds ?w1 this = []"
  proof -
    have "ops (lams ?w1 ! u) = ops (lams w ! u)" if "u < length (lams w)" for u
      using that by (cases "u = this") (simp_all add: upd_lambda_def)
    then have "Lambda_preds ?w1 this = Lambda_preds w this"
      unfolding Lambda_preds_def length_upd_lambda
      by (intro filter_cong) simp_all
    with nopreds show ?thesis by simp
  qed
  have len2: "this < length (lams ?w2)"
    using assms(1) by (simp add: length_upd_lambda)
  have in2: "handle < length (tracked_values (lams ?w2 ! this))
      \<or> handle < max_slots ?w2 \<and> handle < 2 ^ 64 - 1"
    using l1 by (simp add: length_grown)
  have sv: "return_bottom ?w1 this handle ty name = Inr (World_bottom ty, ?w')"
    unfolding return_bottom_def
    using set_value_grown [OF len2 in2, of "World_bottom ty"] by simp
  have gv: "get_value (Suc n) w this handle ty name = Inr (World_bottom ty, ?w')"
    using head sealed by (simp add: ft l1 p1 sv)
  have t2: "lams ?w2 ! this = ?g (lams w ! this)"
    using l1 by simp
  have gg: "grown handle (grown handle tv) = grown handle tv" for tv :: "Def option list"
    by (simp add: grown_def)
  have t: "lams ?w' ! this = (lams w ! this)\<lparr>tracked_values :=
          (grown handle (tracked_values (lams w ! this)))[handle := Some (World_bottom ty)]\<rparr>"
    using assms(1) by (simp add: lams_upd_lambda length_upd_lambda gg)
  have again: "get_value (Suc m) ?w' this handle ty' name' = Inr (World_bottom ty, ?w')"
  proof (rule get_value_bound)
    show "this < length (lams ?w')" using assms(1) by (simp add: length_upd_lambda)
    show "handle < length (tracked_values (lams ?w' ! this))"
      unfolding t by (simp add: length_grown)
    show "tracked_values (lams ?w' ! this) ! handle = Some (World_bottom ty)"
      unfolding t by (simp add: length_grown)
  qed
  have o: "\<forall>l<length (lams w). l \<noteq> this \<longrightarrow> lams ?w' ! l = lams w ! l"
    by (simp add: upd_lambda_def)
  have c: "cerr ?w' = cerr w @ [[CHR 0x27] @ name @ [CHR 0x27] @ '' may be undefined'']"
    by (simp add: upd_lambda_def)
  have ms: "max_slots ?w' = max_slots w"
    by (simp add: upd_lambda_def)
  from gv c o t ms again show ?thesis
    by (intro exI [of _ ?w']) (simp add: length_upd_lambda)
qed

theorem get_value_no_preds_witness:
  "Suc 0 < length (lams graph_loop) \<and> (0::nat) < max_slots graph_loop \<and> (0::nat) < 2 ^ 64 - 1
   \<and> Lambda_preds graph_loop (Suc 0) = []
   \<and> (\<exists>w'. get_value (Suc 0) graph_loop (Suc 0) 0 int_ty ''x'' = Inr (World_bottom int_ty, w')
          \<and> cerr w' = [[CHR 0x27] @ ''x'' @ [CHR 0x27] @ '' may be undefined'']
          \<and> tracked_values (lams w' ! Suc 0) = [Some (World_bottom int_ty)]
          \<and> get_value (Suc 0) w' (Suc 0) 0 int_ty ''y'' = Inr (World_bottom int_ty, w'))"
proof -
  have lim: "(0::nat) < max_slots graph_loop" "(0::nat) < 2 ^ 64 - 1"
    by (simp_all add: graph_loop_facts)
  have pre: "Suc 0 < length (lams graph_loop)"
    "0 < length (tracked_values (lams graph_loop ! Suc 0))
       \<or> 0 < max_slots graph_loop \<and> (0::nat) < 2 ^ 64 - 1"
    "parent (lams graph_loop ! Suc 0) = Some (Suc 0)"
    "is_sealed (lams graph_loop ! Suc 0)"
    "Lambda_preds graph_loop (Suc 0) = []"
    "0 < length (tracked_values (lams graph_loop ! Suc 0)) \<longrightarrow>
       tracked_values (lams graph_loop ! Suc 0) ! 0 = None"
    by (simp_all add: graph_loop_facts)
  from get_value_no_preds [OF pre, of 0 int_ty "''x''" 0 int_ty "''y''"]
  obtain w' where w': "get_value (Suc 0) graph_loop (Suc 0) 0 int_ty ''x'' = Inr (World_bottom int_ty, w')"
    "cerr w' = cerr graph_loop @ [[CHR 0x27] @ ''x'' @ [CHR 0x27] @ '' may be undefined'']"
    "lams w' ! Suc 0 = (lams graph_loop ! Suc 0)\<lparr>tracked_values :=
          (grown 0 (tracked_values (lams graph_loop ! Suc 0)))[0 := Some (World_bottom int_ty)]\<rparr>"
    "get_value (Suc 0) w' (Suc 0) 0 int_ty ''y'' = Inr (World_bottom int_ty, w')"
    by blast
  have "(grown 0 [])[0 := Some (World_bottom int_ty)] = [Some (World_bottom int_ty)]"
    by (simp add: grown_def)
  with w'(3) have "tracked_values (lams w' ! Suc 0) = [Some (World_bottom int_ty)]"
    by (simp add: graph_loop_facts)
  moreover from w'(2) have "cerr w' = [[CHR 0x27] @ ''x'' @ [CHR 0x27] @ '' may be undefined'']"
    by (simp only: graph_loop_facts append_Nil)
  ultimately show ?thesis using w'(1,4) pre(1,5) lim by blast
qed

text \<open>
  On the sealed head gid 1 of \<open>graph_loop\<close>, which has no predecessor and no binding:
  at the handle \<open>2^64 - 2\<close> \<open>resize\<close> fails, and at the handle \<open>2^64 - 1\<close> the
  lookup in the emptied value table is out of range. Neither call returns \<open>bottom\<close>.
\<close>

theorem get_value_wraps_counterexample:
  "get_value (Suc 0) graph_loop (Suc 0) (2 ^ 64 - 2) int_ty ''x'' = Inl ResizeFailure
   \<and> get_value (Suc 0) graph_loop (Suc 0) (2 ^ 64 - 1) int_ty ''x'' = Inl OutOfBounds"
proof -
  have "find_tracker graph_loop (Suc 0) (2 ^ 64 - 2) = Inl ResizeFailure"
    by (rule find_tracker_resize_fails) (simp_all add: graph_loop_facts)
  moreover have "find_tracker graph_loop (Suc 0) (2 ^ 64 - 1) = Inl OutOfBounds"
    by (rule find_tracker_wrap) (simp_all add: graph_loop_facts)
  ultimately show ?thesis by simp
qed

subsection \<open>SSA construction: removal of a trivial parameter\<close>

text \<open>
  C3, on the world \<open>graph_loop\<close>. The parameter \<open>p\<close> of \<open>L\<close> receives the literal 7
  from both predecessors: it is replaced by 7 and the two argument slots become
  \<open>bottom\<close>. \<open>L\<close> had passed \<open>p\<close> to the parameter \<open>q\<close> of its successor \<open>S\<close>,
  which now receives 7 from \<open>L\<close> and itself from \<open>S\<close>. The removal of \<open>p\<close> leaves
  \<open>q\<close> in place (\<open>graph_loop_removed\<close>), although a removal attempted on \<open>q\<close> in
  that world replaces it by 7 (\<open>graph_loop_retried\<close>): the inner loop looks among
  the arguments of \<open>S\<close> for the lambda that used \<open>p\<close>.
\<close>

theorem try_remove_trivial_param_successor:
  "try_remove_trivial_param (Suc n) graph_loop 0 0 = Inr (lit7, graph_loop_removed)
   \<and> try_remove_trivial_param (Suc m) graph_loop_removed 3 0 = Inr (lit7, graph_loop_retried)"
  by (simp add: graph_loop_def graph_loop_removed_def graph_loop_retried_def head_def lit7_def int_ty_def
      Lambda_preds_def operand_lambdas_def arg_def num_args_def peek_def direct_preds_def
      select_misused_def world_defs_def Def_replace_def update_arg_def update_op_def unset_op_def set_op_def
      upd_lambda_def tracked_uses_def Lambda_succs_def World_bottom_def upt4 direct_uses_def)

subsection \<open>Mangler: the jump of a rewritten body\<close>

lemma substitute_iff:
  "\<forall>k\<in>set ks. k < length nargs \<Longrightarrow> i + length ks \<le> length dw \<Longrightarrow>
   substitute nargs ks dw i = Inr (\<forall>j<length ks. nargs ! (ks ! j) = dw ! (i + j))"
proof (induction ks arbitrary: i)
  case Nil
  show ?case by simp
next
  case (Cons k ks)
  from Cons.prems have k: "k < length nargs" "i < length dw" by simp_all
  show ?case
  proof (cases "nargs ! k = dw ! i")
    case True
    have "substitute nargs ks dw (i + 1) = Inr (\<forall>j<length ks. nargs ! (ks ! j) = dw ! (i + 1 + j))"
      using Cons.prems by (intro Cons.IH) simp_all
    moreover have "(\<forall>j<length (k # ks). nargs ! ((k # ks) ! j) = dw ! (i + j))
       \<longleftrightarrow> (\<forall>j<length ks. nargs ! (ks ! j) = dw ! (i + 1 + j))"
      using True by (auto simp add: less_Suc_eq_0_disj)
    ultimately show ?thesis using k True by simp
  next
    case False
    then have "\<not> (\<forall>j<length (k # ks). nargs ! ((k # ks) ! j) = dw ! (i + j))"
      by (auto intro: exI [of _ 0])
    with k False show ?thesis by simp
  qed
qed

lemma ops_upd_lambda:
  "this < length (lams w) \<Longrightarrow> ops (lams (upd_lambda w this f) ! this) = ops (f (lams w ! this))"
  by (simp add: upd_lambda_def)

lemma set_args_ok:
  "this < length (lams w) \<Longrightarrow> x + length args \<le> length (ops (lams w ! this)) \<Longrightarrow>
   set_args w this x args =
     Inr (upd_lambda w this
        (\<lambda>l. l\<lparr>ops := take x (ops l) @ map Some args @ drop (x + length args) (ops l)\<rparr>))"
proof (induction args arbitrary: w x)
  case Nil
  have "upd_lambda w this (\<lambda>l. l\<lparr>ops := take x (ops l) @ drop x (ops l)\<rparr>) = w"
    by (rule upd_lambda_same) simp
  then show ?case by simp
next
  case (Cons a args)
  let ?w1 = "upd_lambda w this (\<lambda>l. l\<lparr>ops := (ops l)[x := Some a]\<rparr>)"
  from Cons.prems have x: "x < length (ops (lams w ! this))" by simp
  then have s: "set_op w this x a = Inr ?w1" by (simp add: set_op_def)
  have l1: "this < length (lams ?w1)" using Cons.prems(1) by (simp add: length_upd_lambda)
  have o1: "ops (lams ?w1 ! this) = (ops (lams w ! this))[x := Some a]"
    using Cons.prems(1) by (simp add: ops_upd_lambda)
  have "set_args ?w1 this (x + 1) args =
     Inr (upd_lambda ?w1 this
        (\<lambda>l. l\<lparr>ops := take (x + 1) (ops l) @ map Some args @ drop (x + 1 + length args) (ops l)\<rparr>))"
    using Cons.prems(2) by (intro Cons.IH [OF l1]) (simp add: o1)
  moreover have "upd_lambda ?w1 this
        (\<lambda>l. l\<lparr>ops := take (x + 1) (ops l) @ map Some args @ drop (x + 1 + length args) (ops l)\<rparr>)
      = upd_lambda w this
        (\<lambda>l. l\<lparr>ops := take x (ops l) @ map Some (a # args) @ drop (x + length (a # args)) (ops l)\<rparr>)"
    using x Cons.prems(1)
    by (simp add: upd_lambda_def take_Suc_conv_app_nth)
  ultimately show ?case using s by simp
qed

lemma Lambda_jump_ok:
  assumes "this < length (lams w)"
  shows "Lambda_jump w this to args =
     Inr (upd_lambda w this (\<lambda>l. l\<lparr>ops := Some to # map Some args\<rparr>))"
proof -
  let ?w1 = "resize (unset_ops w this) this (length args + 1)"
  have o1: "ops (lams ?w1 ! this) = replicate (length args + 1) None"
    using assms
    by (simp add: resize_def unset_ops_def upd_lambda_def vec_resize_def
        map_replicate_const replicate_add [symmetric] min_def take_map)
  have l1: "this < length (lams ?w1)"
    using assms by (simp add: resize_def unset_ops_def length_upd_lambda)
  let ?w2 = "upd_lambda ?w1 this (\<lambda>l. l\<lparr>ops := (ops l)[0 := Some to]\<rparr>)"
  have s: "set_op ?w1 this 0 to = Inr ?w2"
    using o1 by (simp add: set_op_def)
  have l2: "this < length (lams ?w2)" using l1 by (simp add: length_upd_lambda)
  have o2: "ops (lams ?w2 ! this) = Some to # replicate (length args) None"
    using l1 o1 by (simp add: ops_upd_lambda)
  have "set_args ?w2 this 1 args =
     Inr (upd_lambda ?w2 this
        (\<lambda>l. l\<lparr>ops := take 1 (ops l) @ map Some args @ drop (1 + length args) (ops l)\<rparr>))"
    using o2 by (intro set_args_ok [OF l2]) simp
  moreover have "upd_lambda ?w2 this
        (\<lambda>l. l\<lparr>ops := take 1 (ops l) @ map Some args @ drop (1 + length args) (ops l)\<rparr>)
      = upd_lambda w this (\<lambda>l. l\<lparr>ops := Some to # map Some args\<rparr>)"
    using assms
    by (simp add: resize_def unset_ops_def upd_lambda_def vec_resize_def
        map_replicate_const replicate_add [symmetric] min_def take_map)
  ultimately show ?thesis
    unfolding Lambda_jump_def using s by simp
qed

lemma mangled_refl: "mangled m m"
  unfolding mangled_def by (intro exI [of _ "cptr m"] exI [of _ "[]"]) simp

lemma mangled_trans: "mangled a b \<Longrightarrow> mangled b c \<Longrightarrow> mangled a c"
  unfolding mangled_def
proof (elim exE)
  fix c1 n1 c2 n2
  assume b: "b = a\<lparr>world := (world a)\<lparr>lams := lams (world a) @ n1\<rparr>, cptr := c1\<rparr>"
    and c: "c = b\<lparr>world := (world b)\<lparr>lams := lams (world b) @ n2\<rparr>, cptr := c2\<rparr>"
  show "\<exists>c' new. c = a\<lparr>world := (world a)\<lparr>lams := lams (world a) @ new\<rparr>, cptr := c'\<rparr>"
    by (intro exI [of _ c2] exI [of _ "n1 @ n2"]) (simp add: b c)
qed

lemma mangled_map: "mangled m (Mangler_map m d to)"
  unfolding mangled_def Mangler_map_def
  by (intro exI [of _ "(cptr m)(d := Some to)"] exI [of _ "[]"]) simp

lemma mangled_map_trans: "mangled a b \<Longrightarrow> mangled a (Mangler_map b d to)"
  using mangled_map [of b d to] by (rule mangled_trans [rotated])

lemma mangled_fold_map:
  "mangled a b \<Longrightarrow> mangled a (fold (\<lambda>i m. Mangler_map m (f i) (g i)) xs b)"
  by (induction xs arbitrary: b) (simp_all add: mangled_map_trans)

lemma mangled_fields:
  assumes "mangled m m'"
  shows "scope_rpo m' = scope_rpo m" "to_drop m' = to_drop m" "drop_with m' = drop_with m"
    "to_lift m' = to_lift m" "oentry m' = oentry m" "nentry m' = nentry m"
    "generic_map m' = generic_map m" "scope_num_entries m' = scope_num_entries m"
    "length (lams (world m)) \<le> length (lams (world m'))"
    "l < length (lams (world m)) \<Longrightarrow> lams (world m') ! l = lams (world m) ! l"
  using assms unfolding mangled_def by (auto simp add: nth_append)

lemma mangle_head_ok:
  assumes "cptr m (DLambda l) = None"
  shows "\<exists>nl m'. mangle_head m l = Inr (nl, m') \<and> mangled m m'"
proof -
  let ?w' = "snd (Lambda_stub (world m) (generic_map m) l)"
  have "mangled m (m\<lparr>world := ?w'\<rparr>)"
    unfolding mangled_def Lambda_stub_def World_lambda_def
    by (intro exI [of _ "cptr m"]) auto
  then have "mangled m (Mangler_map (m\<lparr>world := ?w'\<rparr>) (DLambda l)
       (DLambda (fst (Lambda_stub (world m) (generic_map m) l))))"
    by (rule mangled_map_trans)
  then show ?thesis
    using assms by (simp add: mangle_head_def split_beta mangled_fold_map)
qed

lemma mangle_ok:
  "\<exists>d' m'. mangle d m = Inr (d', m') \<and> mangled m m'"
  "\<exists>ys m'. mangle_ops xs m = Inr (ys, m') \<and> mangled m m' \<and> length ys = length xs"
proof (induction d m and xs m rule: mangle_mangle_ops.induct)
  case (1 l m)
  show ?case
  proof (cases "cptr m (DLambda l)")
    case None
    with mangle_head_ok [OF None] show ?thesis
      by (auto simp add: mangled_map)
  next
    case (Some to)
    then show ?thesis by (simp add: mangled_refl)
  qed
next
  case (2 l i m)
  show ?case by (cases "cptr m (DParam l i)") (simp_all add: mangled_refl mangled_map)
next
  case (3 ty b m)
  show ?case by (cases "cptr m (DPrimLit ty b)") (simp_all add: mangled_refl mangled_map)
next
  case (4 ty m)
  show ?case by (cases "cptr m (DBottom ty)") (simp_all add: mangled_refl mangled_map)
next
  case (5 c t f m)
  show ?case
  proof (cases "cptr m (DSelect c t f)")
    case None
    from 5(1) [OF None] obtain c' m1 where c: "mangle c m = Inr (c', m1)" "mangled m m1"
      by blast
    from 5(2) [OF None c(1) refl] obtain t' m2 where t: "mangle t m1 = Inr (t', m2)" "mangled m1 m2"
      by blast
    from 5(3) [OF None c(1) refl t(1) refl] obtain f' m3 where f: "mangle f m2 = Inr (f', m3)" "mangled m2 m3"
      by blast
    from c(2) t(2) f(2) have "mangled m m3" by (blast intro: mangled_trans)
    then have "mangled m (Mangler_map m3 (DSelect c t f) (DSelect c' t' f'))"
      by (rule mangled_map_trans)
    with None c(1) t(1) f(1) show ?thesis by simp
  next
    case (Some to)
    then show ?thesis by (simp add: mangled_refl)
  qed
next
  case (6 k ty xs m)
  show ?case
  proof (cases "cptr m (DPrimOp k ty xs)")
    case None
    from 6 [OF None] obtain ys m' where y: "mangle_ops xs m = Inr (ys, m')" "mangled m m'"
      by blast
    from y(2) have "mangled m (Mangler_map m' (DPrimOp k ty xs) (DPrimOp k ty ys))"
      by (rule mangled_map_trans)
    with None y(1) show ?thesis by simp
  next
    case (Some to)
    then show ?thesis by (simp add: mangled_refl)
  qed
next
  case (7 m)
  show ?case by (simp add: mangled_refl)
next
  case (8 x xs m)
  from 8(1) obtain y m1 where y: "mangle x m = Inr (y, m1)" "mangled m m1" by blast
  from 8(2) [OF y(1) refl] obtain ys m2 where ys: "mangle_ops xs m1 = Inr (ys, m2)"
    "mangled m1 m2" "length ys = length xs" by blast
  from y(2) ys(2) have "mangled m m2" by (rule mangled_trans)
  with y(1) ys(1,3) show ?case by simp
qed

lemma mangle_target_ok:
  "\<exists>d' m'. mangle_target d m = Inr (d', m') \<and> mangled m m'"
proof (cases d)
  case (DSelect c t f)
  obtain cond m1 where c: "mangle c m = Inr (cond, m1)" "mangled m m1"
    using mangle_ok(1) [of c m] by blast
  show ?thesis
  proof (cases "\<exists>ty b. cond = DPrimLit ty b")
    case True
    then obtain ty b where l: "cond = DPrimLit ty b" by blast
    obtain d' m2 where d: "mangle (if get_u1 b then t else f) m1 = Inr (d', m2)" "mangled m1 m2"
      using mangle_ok(1) [of "if get_u1 b then t else f" m1] by blast
    from c(2) d(2) have "mangled m m2" by (rule mangled_trans)
    with DSelect c(1) l d(1) show ?thesis by (simp add: mangle_target_def)
  next
    case False
    obtain t' m2 where t: "mangle t m1 = Inr (t', m2)" "mangled m1 m2"
      using mangle_ok(1) [of t m1] by blast
    obtain f' m3 where f: "mangle f m2 = Inr (f', m3)" "mangled m2 m3"
      using mangle_ok(1) [of f m2] by blast
    from c(2) t(2) f(2) have "mangled m m3" by (blast intro: mangled_trans)
    with DSelect c(1) t(1) f(1) False show ?thesis
      by (cases cond) (simp_all add: mangle_target_def)
  qed
qed (use mangle_ok(1) [of d m] in \<open>simp_all add: mangle_target_def del: mangle.simps\<close>)

lemma mangle_body_ops_ok:
  assumes "ops (lams (world m) ! ol) \<noteq> []" "None \<notin> set (ops (lams (world m) ! ol))"
  shows "\<exists>ntarget nargs m1. mangle_body_ops m ol = Inr (ntarget # nargs, m1) \<and> mangled m m1
     \<and> length nargs = num_args (lams (world m) ! ol)"
proof -
  obtain nargs m1 where a: "mangle_ops (map the (tl (ops (lams (world m) ! ol)))) m = Inr (nargs, m1)"
    "mangled m m1" "length nargs = length (map the (tl (ops (lams (world m) ! ol))))"
    using mangle_ok(2) [of "map the (tl (ops (lams (world m) ! ol)))" m] by blast
  obtain ntarget m2 where t: "mangle_target (the (hd (ops (lams (world m) ! ol)))) m1 = Inr (ntarget, m2)"
    "mangled m1 m2"
    using mangle_target_ok [of "the (hd (ops (lams (world m) ! ol)))" m1] by blast
  from a(2) t(2) have "mangled m m2" by (rule mangled_trans)
  with assms a(1,3) t(1) show ?thesis
    by (simp add: mangle_body_ops_def num_args_def)
qed

lemma cut_nths: "cut xs indices = nths xs {i. i \<notin> set indices}"
  by (simp add: cut_def nths_def)

text \<open>
  C5. When \<open>mangle_body\<close> runs on a lambda with a body (operands, none of them
  null), for a new lambda of the world and one replacement per dropped index, the
  operands are rewritten without fault (\<open>ntarget\<close> the rewritten callee, \<open>nargs\<close>
  the rewritten arguments, as many as the old ones), and: when \<open>ntarget\<close> is the old
  entry and, for every dropped index, the rewritten argument at that index equals the
  corresponding \<open>drop_with\<close> constant, the operands of the new lambda are the new
  entry followed by \<open>nargs\<close> with the dropped indices removed; when \<open>ntarget\<close> is
  not the old entry, or some rewritten argument at a dropped index differs from its
  constant, they are \<open>ntarget\<close> followed by all of \<open>nargs\<close>. (A call to the old
  entry has an argument at every dropped index: the verifier asserts that arguments
  and parameters match.) Nothing else of the world changes in the jump.
\<close>

theorem mangle_body_tail_call:
  assumes body: "ops (lams (world m) ! ol) \<noteq> []" "None \<notin> set (ops (lams (world m) ! ol))"
    and nl: "nl < length (lams (world m))"
    and dw: "length (to_drop m) \<le> length (drop_with m)"
  shows "\<exists>ntarget nargs m1.
       mangle_body_ops m ol = Inr (ntarget # nargs, m1)
     \<and> length nargs = num_args (lams (world m) ! ol)
     \<and> (ntarget = DLambda (oentry m)
          \<and> (\<forall>i<length (to_drop m). to_drop m ! i < length nargs
                 \<and> nargs ! (to_drop m ! i) = drop_with m ! i) \<longrightarrow>
          mangle_body m ol nl =
            Inr (m1\<lparr>world := upd_lambda (world m1) nl
              (\<lambda>l. l\<lparr>ops := Some (DLambda (nentry m)) # map Some (cut nargs (to_drop m))\<rparr>)\<rparr>))
     \<and> (ntarget \<noteq> DLambda (oentry m)
          \<or> (\<forall>i<length (to_drop m). to_drop m ! i < length nargs)
            \<and> (\<exists>i<length (to_drop m). nargs ! (to_drop m ! i) \<noteq> drop_with m ! i) \<longrightarrow>
          mangle_body m ol nl =
            Inr (m1\<lparr>world := upd_lambda (world m1) nl
              (\<lambda>l. l\<lparr>ops := Some ntarget # map Some nargs\<rparr>)\<rparr>))"
proof -
  from mangle_body_ops_ok [OF body] obtain ntarget nargs m1
    where r: "mangle_body_ops m ol = Inr (ntarget # nargs, m1)" and mg: "mangled m m1"
      and len: "length nargs = num_args (lams (world m) ! ol)"
    by blast
  note f = mangled_fields [OF mg]
  from nl f(9) have nl1: "nl < length (lams (world m1))" by simp
  have j: "jump_in m1 nl to args =
      Inr (m1\<lparr>world := upd_lambda (world m1) nl (\<lambda>l. l\<lparr>ops := Some to # map Some args\<rparr>)\<rparr>)"
    for to args
    by (simp add: jump_in_def Lambda_jump_ok [OF nl1])
  have sub: "substitute nargs (to_drop m) (drop_with m) 0 =
      Inr (\<forall>i<length (to_drop m). nargs ! (to_drop m ! i) = drop_with m ! i)"
    if "\<forall>i<length (to_drop m). to_drop m ! i < length nargs"
    using substitute_iff [of "to_drop m" nargs 0 "drop_with m"] that dw
    by (simp add: all_set_conv_all_nth)
  have a: "mangle_body m ol nl =
            Inr (m1\<lparr>world := upd_lambda (world m1) nl
              (\<lambda>l. l\<lparr>ops := Some (DLambda (nentry m)) # map Some (cut nargs (to_drop m))\<rparr>)\<rparr>)"
    if "ntarget = DLambda (oentry m)"
      "\<forall>i<length (to_drop m). to_drop m ! i < length nargs \<and> nargs ! (to_drop m ! i) = drop_with m ! i"
  proof -
    from that(2) have "substitute nargs (to_drop m) (drop_with m) 0 = Inr True"
      using sub by simp
    with that(1) show ?thesis
      by (simp add: mangle_body_def r f j)
  qed
  have b: "mangle_body m ol nl =
            Inr (m1\<lparr>world := upd_lambda (world m1) nl
              (\<lambda>l. l\<lparr>ops := Some ntarget # map Some nargs\<rparr>)\<rparr>)"
    if "ntarget \<noteq> DLambda (oentry m)
          \<or> (\<forall>i<length (to_drop m). to_drop m ! i < length nargs)
            \<and> (\<exists>i<length (to_drop m). nargs ! (to_drop m ! i) \<noteq> drop_with m ! i)"
  proof (cases "ntarget = DLambda (oentry m)")
    case False
    then show ?thesis by (simp add: mangle_body_def r f j)
  next
    case True
    with that have "substitute nargs (to_drop m) (drop_with m) 0 = Inr False"
      using sub by auto
    with True show ?thesis by (simp add: mangle_body_def r f j)
  qed
  from r len a b show ?thesis by blast
qed

lemma mangler_loop_ops:
  "mangle_body_ops (mangler_loop (DParam 0 0)) 0 =
     Inr ([DLambda 0, lit7, DPrimOp 1 int_ty [DParam 1 0, lit1]],
          Mangler_map (Mangler_map (mangler_loop (DParam 0 0)) lit1 lit1)
            (DPrimOp 1 int_ty [DParam 0 1, lit1]) (DPrimOp 1 int_ty [DParam 1 0, lit1]))"
  by (simp add: mangle_body_ops_def mangler_loop_def head_def mangle_target_def Mangler_map_def
      lit1_def lit7_def int_ty_def)

lemma mangler_loop_ops_other:
  "mangle_body_ops (mangler_loop (DParam 0 1)) 0 =
     Inr ([DLambda 0, DParam 1 0, DPrimOp 1 int_ty [DParam 1 0, lit1]],
          Mangler_map (Mangler_map (mangler_loop (DParam 0 1)) lit1 lit1)
            (DPrimOp 1 int_ty [DParam 0 1, lit1]) (DPrimOp 1 int_ty [DParam 1 0, lit1]))"
  by (simp add: mangle_body_ops_def mangler_loop_def head_def mangle_target_def Mangler_map_def
      lit1_def lit7_def int_ty_def)

lemma mangler_loop_facts:
  "ops (lams (world (mangler_loop first)) ! 0) \<noteq> []"
  "None \<notin> set (ops (lams (world (mangler_loop first)) ! 0))"
  "Suc 0 < length (lams (world (mangler_loop first)))"
  "length (to_drop (mangler_loop first)) \<le> length (drop_with (mangler_loop first))"
  "oentry (mangler_loop first) = 0" "nentry (mangler_loop first) = Suc 0"
  "to_drop (mangler_loop first) = [0]" "drop_with (mangler_loop first) = [lit7]"
  by (simp_all add: mangler_loop_def head_def)

lemma cut_first: "cut [a, b] [0] = [b]"
  by (simp add: cut_def)

theorem mangle_body_tail_call_witness:
  "ops (lams (world (mangler_loop (DParam 0 0))) ! 0) \<noteq> []
   \<and> None \<notin> set (ops (lams (world (mangler_loop (DParam 0 0))) ! 0))
   \<and> Suc 0 < length (lams (world (mangler_loop (DParam 0 0))))
   \<and> length (to_drop (mangler_loop (DParam 0 0))) \<le> length (drop_with (mangler_loop (DParam 0 0)))
   \<and> (\<exists>m1. mangle_body (mangler_loop (DParam 0 0)) 0 (Suc 0) = Inr m1
         \<and> ops (lams (world m1) ! Suc 0) =
             [Some (DLambda (Suc 0)), Some (DPrimOp 1 int_ty [DParam 1 0, lit1])])
   \<and> (\<exists>m1. mangle_body (mangler_loop (DParam 0 1)) 0 (Suc 0) = Inr m1
         \<and> ops (lams (world m1) ! Suc 0) =
             [Some (DLambda 0), Some (DParam 1 0), Some (DPrimOp 1 int_ty [DParam 1 0, lit1])])"
proof -
  have one: "\<exists>m1. mangle_body (mangler_loop (DParam 0 0)) 0 (Suc 0) = Inr m1
         \<and> ops (lams (world m1) ! Suc 0) =
             [Some (DLambda (Suc 0)), Some (DPrimOp 1 int_ty [DParam 1 0, lit1])]"
  proof -
    let ?m = "mangler_loop (DParam 0 0)"
    from mangle_body_tail_call [OF mangler_loop_facts(1-4), of "DParam 0 0"]
    obtain ntarget nargs m1 where r: "mangle_body_ops ?m 0 = Inr (ntarget # nargs, m1)"
      and a: "ntarget = DLambda (oentry ?m)
          \<and> (\<forall>i<length (to_drop ?m). to_drop ?m ! i < length nargs
                 \<and> nargs ! (to_drop ?m ! i) = drop_with ?m ! i) \<longrightarrow>
          mangle_body ?m 0 (Suc 0) =
            Inr (m1\<lparr>world := upd_lambda (world m1) (Suc 0)
              (\<lambda>l. l\<lparr>ops := Some (DLambda (nentry ?m)) # map Some (cut nargs (to_drop ?m))\<rparr>)\<rparr>)"
      by blast
    from r [unfolded mangler_loop_ops]
    have e: "ntarget = DLambda 0" "nargs = [lit7, DPrimOp 1 int_ty [DParam 1 0, lit1]]"
      "m1 = Mangler_map (Mangler_map ?m lit1 lit1)
            (DPrimOp 1 int_ty [DParam 0 1, lit1]) (DPrimOp 1 int_ty [DParam 1 0, lit1])"
      by simp_all
    have "mangle_body ?m 0 (Suc 0) =
            Inr (m1\<lparr>world := upd_lambda (world m1) (Suc 0)
              (\<lambda>l. l\<lparr>ops := Some (DLambda (nentry ?m)) # map Some (cut nargs (to_drop ?m))\<rparr>)\<rparr>)"
      by (rule a [rule_format]) (simp add: e mangler_loop_facts)
    moreover have "ops (lams (world (m1\<lparr>world := upd_lambda (world m1) (Suc 0)
              (\<lambda>l. l\<lparr>ops := Some (DLambda (nentry ?m)) # map Some (cut nargs (to_drop ?m))\<rparr>)\<rparr>)) ! Suc 0)
        = [Some (DLambda (Suc 0)), Some (DPrimOp 1 int_ty [DParam 1 0, lit1])]"
      by (simp add: e(2,3) mangler_loop_facts cut_first Mangler_map_def upd_lambda_def mangler_loop_def)
    ultimately show ?thesis by blast
  qed
  have two: "\<exists>m1. mangle_body (mangler_loop (DParam 0 1)) 0 (Suc 0) = Inr m1
         \<and> ops (lams (world m1) ! Suc 0) =
             [Some (DLambda 0), Some (DParam 1 0), Some (DPrimOp 1 int_ty [DParam 1 0, lit1])]"
  proof -
    let ?m = "mangler_loop (DParam 0 1)"
    from mangle_body_tail_call [OF mangler_loop_facts(1-4), of "DParam 0 1"]
    obtain ntarget nargs m1 where r: "mangle_body_ops ?m 0 = Inr (ntarget # nargs, m1)"
      and b: "ntarget \<noteq> DLambda (oentry ?m)
          \<or> (\<forall>i<length (to_drop ?m). to_drop ?m ! i < length nargs)
            \<and> (\<exists>i<length (to_drop ?m). nargs ! (to_drop ?m ! i) \<noteq> drop_with ?m ! i) \<longrightarrow>
          mangle_body ?m 0 (Suc 0) =
            Inr (m1\<lparr>world := upd_lambda (world m1) (Suc 0)
              (\<lambda>l. l\<lparr>ops := Some ntarget # map Some nargs\<rparr>)\<rparr>)"
      by blast
    from r [unfolded mangler_loop_ops_other]
    have e: "ntarget = DLambda 0" "nargs = [DParam 1 0, DPrimOp 1 int_ty [DParam 1 0, lit1]]"
      "m1 = Mangler_map (Mangler_map ?m lit1 lit1)
            (DPrimOp 1 int_ty [DParam 0 1, lit1]) (DPrimOp 1 int_ty [DParam 1 0, lit1])"
      by simp_all
    have "mangle_body ?m 0 (Suc 0) =
            Inr (m1\<lparr>world := upd_lambda (world m1) (Suc 0)
              (\<lambda>l. l\<lparr>ops := Some ntarget # map Some nargs\<rparr>)\<rparr>)"
      by (rule b [rule_format]) (simp add: e mangler_loop_facts lit7_def)
    moreover have "ops (lams (world (m1\<lparr>world := upd_lambda (world m1) (Suc 0)
              (\<lambda>l. l\<lparr>ops := Some ntarget # map Some nargs\<rparr>)\<rparr>)) ! Suc 0)
        = [Some (DLambda 0), Some (DParam 1 0), Some (DPrimOp 1 int_ty [DParam 1 0, lit1])]"
      by (simp add: e mangler_loop_facts Mangler_map_def upd_lambda_def mangler_loop_def)
    ultimately show ?thesis by blast
  qed
  from one two mangler_loop_facts(1-4) [of "DParam 0 0"] show ?thesis by blast
qed

subsection \<open>Dominator tree: the diamond\<close>

lemma diamond_preds:
  "Scope_preds cfg_diamond scope_diamond_rpo world_diamond_rpo 3 = Inr [1, 2]"
  "Scope_preds cfg_diamond scope_diamond_rpo world_diamond_rpo 2 = Inr [0]"
  "Scope_preds cfg_diamond scope_diamond_rpo world_diamond_rpo (Suc 0) = Inr [0]"
  by (simp_all add: Scope_preds_def contains_def scope_diamond_rpo_def scope_diamond_def
      world_diamond_rpo_def cfg_diamond_def sid_of_def Scope_size_def Let_def)

lemma diamond_contains:
  "contains scope_diamond_rpo world_diamond_rpo 0"
  "contains scope_diamond_rpo world_diamond_rpo (Suc 0)"
  "contains scope_diamond_rpo world_diamond_rpo 2"
  "contains scope_diamond_rpo world_diamond_rpo 3"
  by (simp_all add: contains_def scope_diamond_rpo_def scope_diamond_def world_diamond_rpo_def)

lemma diamond_index:
  "DomTree_index world_diamond_rpo t 0 = (if dt_forwards t then 0 else size_t_max)"
  "DomTree_index world_diamond_rpo t (Suc 0) = (if dt_forwards t then 2 else size_t_max)"
  "DomTree_index world_diamond_rpo t 2 = (if dt_forwards t then 1 else size_t_max)"
  "DomTree_index world_diamond_rpo t 3 = (if dt_forwards t then 3 else size_t_max)"
  by (simp_all add: DomTree_index_def world_diamond_rpo_def)

text \<open>
  The dominator tree of the diamond: the entry is the immediate dominator of every
  lambda.
\<close>

lemma DomTree_create_diamond:
  "\<exists>t. DomTree_create (Suc (Suc (Suc 0))) cfg_diamond scope_diamond_rpo world_diamond_rpo True = Inr t
     \<and> dt_nodes t = [Some 0, Some 2, Some 1, Some 3]
     \<and> map (DomTree_idom scope_diamond_rpo world_diamond_rpo t) [0, 2, 1, 3]
         = [Inr (Some 0), Inr (Some 0), Inr (Some 0), Inr (Some 0)]"
  unfolding DomTree_create_def
  by (simp add: DomTree_new_def create_node_def diamond_index Scope_size_def
      DomTree_entries_def Scope_entries_def init_entry_def DomTree_lookup_def diamond_contains
      set_idom_def DomTree_body_def Scope_body_def init_idom_def DomTree_preds_def diamond_preds
      get_idom_def update_idom_def new_idom_step_def add_child_def DomTree_idom_def
      scope_diamond_rpo_def [THEN arg_cong, of rpo] scope_diamond_rpo_def [THEN arg_cong, of num_entries]
      scope_diamond_def)

text \<open>
  C2 (evaluation at the failing input). The diamond scope is built by
  \<open>Scope::process\<close>, which numbers \<open>sid\<close>; nothing numbers \<open>backwards_sid\<close>,
  which is \<open>size_t(-1)\<close> on every lambda (\<open>backwards_rpo()\<close> only counts the
  exits). The post-dominator tree indexes \<open>nodes_\<close> by \<open>backwards_sid\<close>: the
  first statement of \<open>create\<close> writes outside the array, for every bound on the
  loops, and no post-dominator tree is built.
\<close>

theorem DomTree_create_postdom:
  "Scope_process cfg_diamond scope_diamond [0] world_diamond = Inr (world_diamond_rpo, scope_diamond_rpo)
   \<and> map (\<lambda>l. backwards_sid (lambdas world_diamond_rpo ! l)) [0, 2, 1, 3]
       = [size_t_max, size_t_max, size_t_max, size_t_max]
   \<and> DomTree_create n cfg_diamond scope_diamond_rpo world_diamond_rpo False = Inl OutOfBounds"
  using Scope_process_diamond
  by (simp add: DomTree_create_def DomTree_new_def create_node_def DomTree_index_def
      scope_diamond_rpo_def scope_diamond_def world_diamond_rpo_def Scope_size_def size_t_max_def)

end
